theory Spec2Isabelle
  imports Complex_Main "HOL-Library.Multiset"
begin

section \<open>JavaScript values and text\<close>

text \<open>
  Text is a \<open>string\<close>: a list of 8-bit code units, so the model covers the inputs
  whose characters lie below U+0100. Within that range the white space of
  \<^verbatim>\<open>String.prototype.trim\<close> and of the regular expression class \<^verbatim>\<open>\s\<close> is
  TAB, LF, VT, FF, CR, SPACE and NBSP.

  A field that the TypeScript reads through a run-time type test
  (\<^verbatim>\<open>typeof x === 'string'\<close>, \<^verbatim>\<open>Array.isArray(x)\<close>) holds a \<open>jsval\<close>.
\<close>

datatype jsval =
    JUndefined
  | JNull
  | JBool bool
  | JNum rat
  | JStr string
  | JArr "jsval list"
  | JObj "(string \<times> jsval) list"

definition digit_chars :: "char list" where
  "digit_chars = ''0123456789''"

definition is_digit :: "char \<Rightarrow> bool" where
  "is_digit c = (c \<in> set digit_chars)"

fun string_of_nat :: "nat \<Rightarrow> string" where
  "string_of_nat n =
     (if n < 10 then [digit_chars ! n]
      else string_of_nat (n div 10) @ [digit_chars ! (n mod 10)])"

declare string_of_nat.simps [simp del]

text \<open>\<^verbatim>\<open>`${n}`\<close> for an integral number \<open>n\<close> (below the 1e21 where JavaScript
  switches to exponent notation).\<close>

definition string_of_int :: "int \<Rightarrow> string" where
  "string_of_int i =
     (if i < 0 then CHR ''-'' # string_of_nat (nat (- i)) else string_of_nat (nat i))"

section \<open>ScheduleBuilder.tsx: the session template\<close>

record Session =
  name :: string
  startTime :: string
  endTime :: string

definition FULL_DAY_SESSIONS :: "Session list" where
  "FULL_DAY_SESSIONS =
     [\<lparr>name = ''Session 1'', startTime = ''09:00'', endTime = ''11:00''\<rparr>,
      \<lparr>name = ''Session 2'', startTime = ''11:00'', endTime = ''14:00''\<rparr>,
      \<lparr>name = ''Session 3'', startTime = ''14:00'', endTime = ''16:00''\<rparr>,
      \<lparr>name = ''Session 4'', startTime = ''16:00'', endTime = ''18:00''\<rparr>]"

definition HALF_DAY_SESSIONS :: "Session list" where
  "HALF_DAY_SESSIONS =
     [\<lparr>name = ''Session 1'', startTime = ''09:00'', endTime = ''11:00''\<rparr>,
      \<lparr>name = ''Session 2'', startTime = ''11:00'', endTime = ''14:00''\<rparr>]"

definition HOUR_SESSIONS :: "Session list" where
  "HOUR_SESSIONS =
     [\<lparr>name = ''Session 1'', startTime = ''09:00'', endTime = ''11:00''\<rparr>,
      \<lparr>name = ''Session 2'', startTime = ''11:00'', endTime = ''14:00''\<rparr>]"

datatype durationUnit = days | hours | half_day

text \<open>\<^verbatim>\<open>Math.round\<close> rounds to the nearest integer, a tie towards plus infinity.
  The duration is a rational number; NaN and the infinities are not modelled.\<close>

definition Math_round :: "rat \<Rightarrow> int" where
  "Math_round x = \<lfloor>x + 1 / 2\<rfloor>"

definition getSessionsAndDays :: "rat \<Rightarrow> durationUnit \<Rightarrow> Session list \<times> int" where
  "getSessionsAndDays requiredDurationHours unit =
     (case unit of
        half_day \<Rightarrow> (HALF_DAY_SESSIONS, 1)
      | days \<Rightarrow>
          (let daysCount = (if requiredDurationHours > 0 then Math_round requiredDurationHours else 1)
           in (FULL_DAY_SESSIONS, daysCount))
      | hours \<Rightarrow>
          (let sessionsCount = (if requiredDurationHours > 2 then 2 else 1 :: nat)
           in (take sessionsCount HOUR_SESSIONS, 1)))"

section \<open>ScheduleBuilder.tsx: grouping and flattening\<close>

text \<open>The flat item (\<^verbatim>\<open>ScheduleItemData & { id; submodules }\<close>). Its fields carry the
  prefix \<open>i_\<close> only where the name is also a field of \<open>ModuleData\<close> or a HOL constant.\<close>

record ScheduleItem =
  i_id :: string
  day_number :: int
  start_time :: string
  end_time :: string
  module_title :: jsval
  submodule_title :: jsval
  duration_minutes :: int
  i_submodules :: jsval

record ModuleData =
  m_id :: string
  moduleTitle :: string
  submodules :: "jsval list"

record SessionData =
  dayNumber :: int
  s_startTime :: string
  s_endTime :: string
  durationMinutes :: int
  modules :: "ModuleData list"

text \<open>A JavaScript \<^verbatim>\<open>Map\<close> keeps its keys in insertion order: an association list
  with distinct keys, where \<^verbatim>\<open>set\<close> on a present key replaces the value in place.\<close>

type_synonym 'v jsmap = "(string \<times> 'v) list"

fun map_set :: "'v jsmap \<Rightarrow> string \<Rightarrow> 'v \<Rightarrow> 'v jsmap" where
  "map_set [] k v = [(k, v)]"
| "map_set ((k', v') # m) k v =
     (if k' = k then (k, v) # m else (k', v') # map_set m k v)"

definition map_get :: "'v jsmap \<Rightarrow> string \<Rightarrow> 'v option" where
  "map_get m k = map_of m k"

definition session_key :: "int \<Rightarrow> string \<Rightarrow> string" where
  "session_key day st = string_of_int day @ ''-'' @ st"

definition init_session :: "int \<Rightarrow> SessionData jsmap \<Rightarrow> Session \<Rightarrow> SessionData jsmap" where
  "init_session day sessionMap session =
     map_set sessionMap (session_key day (startTime session))
       \<lparr>dayNumber = day, s_startTime = startTime session, s_endTime = endTime session,
        durationMinutes = 120, modules = []\<rparr>"

definition init_sessions :: "Session list \<Rightarrow> int \<Rightarrow> SessionData jsmap" where
  "init_sessions sessions daysCount =
     foldl (\<lambda>sessionMap day. foldl (init_session day) sessionMap sessions) [] [1..daysCount]"

text \<open>\<^verbatim>\<open>typeof item.module_title === 'string' ? item.module_title : ''\<close> and
  \<^verbatim>\<open>Array.isArray(item.submodules) ? item.submodules : []\<close>\<close>

definition moduleTitle_of :: "jsval \<Rightarrow> string" where
  "moduleTitle_of t = (case t of JStr s \<Rightarrow> s | _ \<Rightarrow> [])"

definition submodules_of :: "jsval \<Rightarrow> jsval list" where
  "submodules_of x = (case x of JArr xs \<Rightarrow> xs | _ \<Rightarrow> [])"

text \<open>An item without an id gets \<^verbatim>\<open>`module-${Date.now()}-${Math.random()}`\<close>: the
  \<open>n\<close>-th generated id is \<open>gen n\<close>, and the count of generated ids is threaded through
  the loop.\<close>

definition group_item ::
  "(nat \<Rightarrow> string) \<Rightarrow> SessionData jsmap \<times> nat \<Rightarrow> ScheduleItem \<Rightarrow> SessionData jsmap \<times> nat" where
  "group_item gen st item =
     (let sessionMap = fst st; n = snd st;
          key = session_key (day_number item) (start_time item)
      in case map_get sessionMap key of
           None \<Rightarrow> (sessionMap, n)
         | Some session \<Rightarrow>
             (let title = moduleTitle_of (module_title item);
                  subs = submodules_of (i_submodules item);
                  mid = (if i_id item \<noteq> '''' then i_id item else gen n);
                  n' = (if i_id item \<noteq> '''' then n else Suc n)
              in (map_set sessionMap key
                    (session\<lparr>modules := modules session @
                       [\<lparr>m_id = mid, moduleTitle = title, submodules = subs\<rparr>]\<rparr>), n')))"

definition groupScheduleBySession ::
  "(nat \<Rightarrow> string) \<Rightarrow> Session list \<Rightarrow> int \<Rightarrow> ScheduleItem list \<Rightarrow> SessionData jsmap" where
  "groupScheduleBySession gen sessions daysCount scheduleItems =
     fst (foldl (group_item gen) (init_sessions sessions daysCount, 0) scheduleItems)"

definition flatten_module :: "SessionData \<Rightarrow> ModuleData \<Rightarrow> ScheduleItem" where
  "flatten_module session md =
     \<lparr>i_id = m_id md,
      day_number = dayNumber session,
      start_time = s_startTime session,
      end_time = s_endTime session,
      module_title = JStr (moduleTitle md),
      submodule_title = (if length (submodules md) > 0 then JArr (submodules md) else JNull),
      duration_minutes = durationMinutes session,
      i_submodules = JArr (submodules md)\<rparr>"

definition flattenSchedule :: "SessionData jsmap \<Rightarrow> ScheduleItem list" where
  "flattenSchedule sessionMap =
     concat (map (\<lambda>(key, session). map (flatten_module session) (modules session)) sessionMap)"

section \<open>Text operations of the import scripts\<close>

definition white_space :: "char list" where
  "white_space = [CHR 0x09, CHR 0x0A, CHR 0x0B, CHR 0x0C, CHR 0x0D, CHR '' '', CHR 0xA0]"

definition is_space :: "char \<Rightarrow> bool" where
  "is_space c = (c \<in> set white_space)"

definition trim :: "string \<Rightarrow> string" where
  "trim s = rev (dropWhile is_space (rev (dropWhile is_space s)))"

text \<open>\<^verbatim>\<open>toUpperCase\<close> and \<^verbatim>\<open>toLowerCase\<close> on the letters a to z. The scripts only compare
  the result with \<^verbatim>\<open>'NULL'\<close> or look for \<^verbatim>\<open>'a'\<close> and \<^verbatim>\<open>'p'\<close> in it, and no character above
  U+007F has one of these letters as its upper or lower case.\<close>

definition upper_char :: "char \<Rightarrow> char" where
  "upper_char c =
     (if c \<in> set ''abcdefghijklmnopqrstuvwxyz'' then char_of (of_char c - (32 :: nat)) else c)"

definition lower_char :: "char \<Rightarrow> char" where
  "lower_char c =
     (if c \<in> set ''ABCDEFGHIJKLMNOPQRSTUVWXYZ'' then char_of (of_char c + (32 :: nat)) else c)"

definition toUpperCase :: "string \<Rightarrow> string" where
  "toUpperCase = map upper_char"

definition toLowerCase :: "string \<Rightarrow> string" where
  "toLowerCase = map lower_char"

text \<open>\<^verbatim>\<open>s.split(c)\<close> for a one-character separator: never empty, \<^verbatim>\<open>''.split(c)\<close> is
  \<^verbatim>\<open>['']\<close>.\<close>

fun split :: "char \<Rightarrow> string \<Rightarrow> string list" where
  "split c [] = [[]]"
| "split c (x # xs) =
     (let r = split c xs in if x = c then [] # r else (x # hd r) # tl r)"

text \<open>\<^verbatim>\<open>s.replace(/c/g, d)\<close> for single characters, and \<^verbatim>\<open>s.replace(/c/g, '')\<close>.\<close>

definition replace_char :: "char \<Rightarrow> char \<Rightarrow> string \<Rightarrow> string" where
  "replace_char c d = map (\<lambda>x. if x = c then d else x)"

definition remove_char :: "char \<Rightarrow> string \<Rightarrow> string" where
  "remove_char c = filter (\<lambda>x. x \<noteq> c)"

definition padStart2 :: "string \<Rightarrow> string" where
  "padStart2 s = replicate (2 - length s) CHR ''0'' @ s"

subsection \<open>Regular expressions\<close>

text \<open>
  The regular expressions of the scripts, as syntax trees, with the backtracking
  semantics of ECMAScript: alternatives left to right, the quantifiers \<^verbatim>\<open>?\<close>, \<^verbatim>\<open>*\<close>,
  \<^verbatim>\<open>+\<close> greedy, a capture group recording the text it matched last. A character class
  is the list of its members (for a regular expression with the flag \<^verbatim>\<open>i\<close>, both
  cases of a letter).
\<close>

datatype rx =
    Cls "char list"
  | NCls "char list"
  | Eps
  | Eol
  | Seq rx rx
  | Alt rx rx
  | Star rx
  | Group nat rx

definition Opt :: "rx \<Rightarrow> rx" where
  "Opt r = Alt r Eps"

definition Many1 :: "rx \<Rightarrow> rx" where
  "Many1 r = Seq r (Star r)"

type_synonym captures = "(nat \<times> string) list"

text \<open>\<open>rx_run r s caps k\<close> matches \<open>r\<close> at the front of \<open>s\<close> and hands the rest of the
  text and the captures to the continuation \<open>k\<close>; \<open>None\<close> sends the matcher back to
  its last choice.\<close>

fun rx_run ::
  "rx \<Rightarrow> string \<Rightarrow> captures \<Rightarrow> (string \<Rightarrow> captures \<Rightarrow> (string \<times> captures) option)
     \<Rightarrow> (string \<times> captures) option" where
  "rx_run (Cls cs) s caps k =
     (case s of [] \<Rightarrow> None | x # xs \<Rightarrow> if x \<in> set cs then k xs caps else None)"
| "rx_run (NCls cs) s caps k =
     (case s of [] \<Rightarrow> None | x # xs \<Rightarrow> if x \<notin> set cs then k xs caps else None)"
| "rx_run Eps s caps k = k s caps"
| "rx_run Eol s caps k = (if s = [] then k s caps else None)"
| "rx_run (Seq a b) s caps k = rx_run a s caps (\<lambda>s' caps'. rx_run b s' caps' k)"
| "rx_run (Alt a b) s caps k =
     (case rx_run a s caps k of Some res \<Rightarrow> Some res | None \<Rightarrow> rx_run b s caps k)"
| "rx_run (Star a) s caps k =
     (case rx_run a s caps
             (\<lambda>s' caps'. if length s' < length s then rx_run (Star a) s' caps' k else None) of
        Some res \<Rightarrow> Some res
      | None \<Rightarrow> k s caps)"
| "rx_run (Group i a) s caps k =
     rx_run a s caps (\<lambda>s' caps'. k s' ((i, take (length s - length s') s) # caps'))"

text \<open>A match at the front of the text: the matched text, the captures, the rest.\<close>

definition rx_match_here :: "rx \<Rightarrow> string \<Rightarrow> (string \<times> captures \<times> string) option" where
  "rx_match_here r s =
     (case rx_run r s [] (\<lambda>s' caps'. Some (s', caps')) of
        None \<Rightarrow> None
      | Some (s', caps') \<Rightarrow> Some (take (length s - length s') s, caps', s'))"

text \<open>\<^verbatim>\<open>s.match(r)\<close> without the flag \<^verbatim>\<open>g\<close>: the leftmost match.\<close>

fun rx_match :: "rx \<Rightarrow> string \<Rightarrow> (string \<times> captures) option" where
  "rx_match r [] = (case rx_match_here r [] of None \<Rightarrow> None | Some (m, caps, rest) \<Rightarrow> Some (m, caps))"
| "rx_match r (x # xs) =
     (case rx_match_here r (x # xs) of
        None \<Rightarrow> rx_match r xs
      | Some (m, caps, rest) \<Rightarrow> Some (m, caps))"

text \<open>\<open>m[i]\<close> of a match: \<open>None\<close> is \<^verbatim>\<open>undefined\<close>, a group that took no part.\<close>

definition group :: "captures \<Rightarrow> nat \<Rightarrow> string option" where
  "group caps i = map_of caps i"

text \<open>\<^verbatim>\<open>s.match(r)\<close> with the flag \<^verbatim>\<open>g\<close>: the matched texts from left to right,
  each search starting where the last match ended (one character further after an
  empty match). \<open>skip\<close> counts the characters still covered by the last match.\<close>

fun rx_match_all_from :: "rx \<Rightarrow> string \<Rightarrow> nat \<Rightarrow> string list" where
  "rx_match_all_from r [] skip =
     (if skip = 0 then (case rx_match_here r [] of None \<Rightarrow> [] | Some (m, caps, rest) \<Rightarrow> [m])
      else [])"
| "rx_match_all_from r (x # xs) skip =
     (if skip > 0 then rx_match_all_from r xs (skip - 1)
      else case rx_match_here r (x # xs) of
             None \<Rightarrow> rx_match_all_from r xs 0
           | Some (m, caps, rest) \<Rightarrow> m # rx_match_all_from r xs (length m - 1))"

definition rx_match_all :: "rx \<Rightarrow> string \<Rightarrow> string list" where
  "rx_match_all r s = rx_match_all_from r s 0"

definition digit :: rx where
  "digit = Cls digit_chars"

definition space :: rx where
  "space = Cls white_space"

section \<open>Numbers\<close>

text \<open>A JavaScript number that is an integer, or NaN. Arithmetic with NaN gives NaN and
  every comparison with NaN is false.\<close>

datatype jsnum = Num int | NaN

fun num_add :: "jsnum \<Rightarrow> jsnum \<Rightarrow> jsnum" where
  "num_add (Num a) (Num b) = Num (a + b)"
| "num_add _ _ = NaN"

fun num_sub :: "jsnum \<Rightarrow> jsnum \<Rightarrow> jsnum" where
  "num_sub (Num a) (Num b) = Num (a - b)"
| "num_sub _ _ = NaN"

fun num_mul :: "jsnum \<Rightarrow> jsnum \<Rightarrow> jsnum" where
  "num_mul (Num a) (Num b) = Num (a * b)"
| "num_mul _ _ = NaN"

fun num_lt :: "jsnum \<Rightarrow> jsnum \<Rightarrow> bool" where
  "num_lt (Num a) (Num b) = (a < b)"
| "num_lt _ _ = False"

fun num_eq :: "jsnum \<Rightarrow> jsnum \<Rightarrow> bool" where
  "num_eq (Num a) (Num b) = (a = b)"
| "num_eq _ _ = False"


text \<open>\<^verbatim>\<open>String(x)\<close>.\<close>

fun String :: "jsnum \<Rightarrow> string" where
  "String (Num i) = string_of_int i"
| "String NaN = ''NaN''"

definition digit_val :: "char \<Rightarrow> nat" where
  "digit_val c = of_char c - 48"

definition nat_of_digits :: "string \<Rightarrow> nat" where
  "nat_of_digits ds = foldl (\<lambda>a c. 10 * a + digit_val c) 0 ds"

text \<open>\<^verbatim>\<open>parseInt(s, 10)\<close>: leading white space, an optional sign, then the longest run
  of digits; NaN when there is no digit.\<close>

definition parseInt :: "string \<Rightarrow> jsnum" where
  "parseInt s =
     (let t = dropWhile is_space s;
          neg = (t \<noteq> [] \<and> hd t = CHR ''-'');
          u = (if t \<noteq> [] \<and> (hd t = CHR ''-'' \<or> hd t = CHR ''+'') then tl t else t);
          ds = takeWhile is_digit u
      in if ds = [] then NaN
         else if neg then Num (- int (nat_of_digits ds)) else Num (int (nat_of_digits ds)))"

text \<open>\<^verbatim>\<open>Number(s)\<close> on the texts that are, between white space, empty (zero) or a run
  of decimal digits; every text that starts otherwise than with a digit, a sign, a dot
  or the \<open>I\<close> of Infinity is NaN. The other spellings of a number (a sign, a fraction,
  an exponent, a radix prefix, Infinity) are outside the model and read as NaN here.\<close>

definition Number :: "string \<Rightarrow> jsnum" where
  "Number s =
     (let t = trim s
      in if t = [] then Num 0
         else if list_all is_digit t then Num (int (nat_of_digits t))
         else NaN)"

text \<open>\<^verbatim>\<open>const [a, b] = xs\<close>: a missing element is \<^verbatim>\<open>undefined\<close>, which is NaN in
  arithmetic.\<close>

definition num_at :: "jsnum list \<Rightarrow> nat \<Rightarrow> jsnum" where
  "num_at xs i = (if i < length xs then xs ! i else NaN)"

section \<open>import-course-schedule-production.ts\<close>

datatype js_error = TypeError | SyntaxError | UniqueConstraintViolation | StoreUnavailable

text \<open>\<^verbatim>\<open>/(\d{1,2}):?(\d{2})?\s*(a\.?m\.?|p\.?m\.?)/i\<close>\<close>

definition time_rx :: rx where
  "time_rx =
     Seq (Group 1 (Seq digit (Opt digit)))
    (Seq (Opt (Cls '':''))
    (Seq (Opt (Group 2 (Seq digit digit)))
    (Seq (Star space)
         (Group 3
            (Alt (Seq (Cls ''aA'') (Seq (Opt (Cls ''.'')) (Seq (Cls ''mM'') (Opt (Cls ''.'')))))
                 (Seq (Cls ''pP'') (Seq (Opt (Cls ''.'')) (Seq (Cls ''mM'') (Opt (Cls ''.''))))))))))"

text \<open>\<^verbatim>\<open>/(\d{1,2}):(\d{2})/\<close>\<close>

definition simple_rx :: rx where
  "simple_rx = Seq (Group 1 (Seq digit (Opt digit))) (Seq (Cls '':'') (Group 2 (Seq digit digit)))"

text \<open>\<^verbatim>\<open>m[2] || '00'\<close>\<close>

definition or_00 :: "string option \<Rightarrow> string" where
  "or_00 g = (case g of None \<Rightarrow> ''00'' | Some m \<Rightarrow> if m = [] then ''00'' else m)"

text \<open>\<^verbatim>\<open>parseInt(m[1], 10)\<close>\<close>

definition parseInt_group :: "string option \<Rightarrow> jsnum" where
  "parseInt_group g = (case g of None \<Rightarrow> NaN | Some m \<Rightarrow> parseInt m)"

text \<open>\<^verbatim>\<open>normalizeTime\<close> of the production import. Reading \<^verbatim>\<open>timeMatch[3].toLowerCase()\<close>
  throws a TypeError when the group is \<^verbatim>\<open>undefined\<close>.\<close>

definition normalizeTime :: "string \<Rightarrow> js_error + string" where
  "normalizeTime timeStr =
     (if timeStr = [] \<or> trim timeStr = [] \<or> toUpperCase (trim timeStr) = ''NULL''
      then Inr ''09:00''
      else
        let cleaned = replace_char CHR ''.'' CHR '':'' (trim timeStr)
        in case rx_match time_rx cleaned of
             None \<Rightarrow>
               (case rx_match simple_rx cleaned of
                  Some (m, caps) \<Rightarrow>
                    (let hours = parseInt_group (group caps 1);
                         minutes = or_00 (group caps 2)
                     in Inr (padStart2 (String hours) @ '':'' @ padStart2 minutes))
                | None \<Rightarrow> Inr ''09:00'')
           | Some (m, caps) \<Rightarrow>
               (let hours = parseInt_group (group caps 1);
                    minutes = or_00 (group caps 2)
                in case group caps 3 of
                     None \<Rightarrow> Inl TypeError
                   | Some g3 \<Rightarrow>
                       (let period = toLowerCase g3;
                            hours' =
                              (if CHR ''p'' \<in> set period \<and> \<not> num_eq hours (Num 12)
                               then num_add hours (Num 12)
                               else if CHR ''a'' \<in> set period \<and> num_eq hours (Num 12)
                               then Num 0
                               else hours)
                        in Inr (padStart2 (String hours') @ '':'' @ padStart2 minutes))))"

definition parseModuleTitle :: "string \<Rightarrow> string list" where
  "parseModuleTitle title =
     (if title = [] \<or> trim title = [] \<or> toUpperCase (trim title) = ''NULL''
      then []
      else filter (\<lambda>m. length m > 0) (map trim (split CHR ''|'' title)))"



text \<open>\<^verbatim>\<open>calculateDurationMinutes\<close> of the production import: the times go through
  \<^verbatim>\<open>normalizeTime\<close>, and the \<^verbatim>\<open>catch\<close> returns 120.\<close>

definition total_minutes :: "string \<Rightarrow> jsnum" where
  "total_minutes t =
     (let parts = map Number (split CHR '':'' t)
      in num_add (num_mul (num_at parts 0) (Num 60)) (num_at parts 1))"

definition calculateDurationMinutes :: "string \<Rightarrow> string \<Rightarrow> jsnum" where
  "calculateDurationMinutes startTime' endTime' =
     (case normalizeTime startTime' of
        Inl e \<Rightarrow> Num 120
      | Inr start \<Rightarrow>
          (case normalizeTime endTime' of
             Inl e \<Rightarrow> Num 120
           | Inr end' \<Rightarrow>
               (let startTotal = total_minutes start;
                    endTotal = total_minutes end';
                    duration = num_sub endTotal startTotal;
                    duration' = (if num_lt duration (Num 0) then num_add duration (Num (24 * 60))
                                 else duration)
                in if num_lt (Num 0) duration' then duration' else Num 120)))"

section \<open>The platform's JSON.parse\<close>

text \<open>
  \<^verbatim>\<open>JSON.parse\<close> after the JSON grammar (ECMA-404); \<open>None\<close> is the SyntaxError it
  throws. A \<^verbatim>\<open>\u\<close> escape is read as an 8-bit code unit. The scanner takes one unit
  of fuel for each value and each element, and starts with twice the length of the
  text plus two.
\<close>

definition json_ws :: "char list" where
  "json_ws = [CHR '' '', CHR 0x09, CHR 0x0A, CHR 0x0D]"

definition skip_ws :: "string \<Rightarrow> string" where
  "skip_ws = dropWhile (\<lambda>c. c \<in> set json_ws)"

definition hex_chars :: "char list" where
  "hex_chars = ''0123456789abcdefABCDEF''"

definition hex_val :: "char \<Rightarrow> nat" where
  "hex_val c =
     (if c \<in> set digit_chars then of_char c - 48
      else if c \<in> set ''abcdef'' then of_char c - 87
      else of_char c - 55)"

definition json_escape :: "char \<Rightarrow> char option" where
  "json_escape e =
     (if e = CHR 0x22 then Some (CHR 0x22)
      else if e = CHR 0x5C then Some (CHR 0x5C)
      else if e = CHR ''/'' then Some (CHR ''/'')
      else if e = CHR ''b'' then Some (CHR 0x08)
      else if e = CHR ''f'' then Some (CHR 0x0C)
      else if e = CHR ''n'' then Some (CHR 0x0A)
      else if e = CHR ''r'' then Some (CHR 0x0D)
      else if e = CHR ''t'' then Some (CHR 0x09)
      else None)"

text \<open>The characters of a string literal after its opening quote.\<close>

fun json_string :: "string \<Rightarrow> string \<Rightarrow> (string \<times> string) option" where
  "json_string acc [] = None"
| "json_string acc [c] = (if c = CHR 0x22 then Some (rev acc, []) else None)"
| "json_string acc (c # e # cs) =
     (if c = CHR 0x22 then Some (rev acc, e # cs)
      else if c = CHR 0x5C then
        (if e = CHR ''u'' then
           (case cs of
              h1 # h2 # h3 # h4 # rest \<Rightarrow>
                if list_all (\<lambda>h. h \<in> set hex_chars) [h1, h2, h3, h4]
                then json_string
                       (char_of (((hex_val h1 * 16 + hex_val h2) * 16 + hex_val h3) * 16 + hex_val h4)
                          # acc) rest
                else None
            | _ \<Rightarrow> None)
         else (case json_escape e of None \<Rightarrow> None | Some ch \<Rightarrow> json_string (ch # acc) cs))
      else if (of_char c :: nat) < 32 then None
      else json_string (c # acc) (e # cs))"

definition json_digits :: "string \<Rightarrow> (string \<times> string) option" where
  "json_digits s = (if takeWhile is_digit s = [] then None
                    else Some (takeWhile is_digit s, dropWhile is_digit s))"

definition json_number :: "string \<Rightarrow> (rat \<times> string) option" where
  "json_number s =
     (let neg = (s \<noteq> [] \<and> hd s = CHR ''-'');
          s1 = (if neg then tl s else s)
      in case json_digits s1 of
           None \<Rightarrow> None
         | Some (ip, s2) \<Rightarrow>
             if length ip > 1 \<and> hd ip = CHR ''0'' then None
             else
               (case (if s2 \<noteq> [] \<and> hd s2 = CHR ''.''
                      then json_digits (tl s2) else Some ([], s2)) of
                  None \<Rightarrow> None
                | Some (fp, s3) \<Rightarrow>
                    (let mant = (of_nat (nat_of_digits (ip @ fp)) :: rat) / 10 ^ length fp;
                         sgn = (if neg then - mant else mant)
                     in if s3 \<noteq> [] \<and> (hd s3 = CHR ''e'' \<or> hd s3 = CHR ''E'')
                        then
                          (let s4 = tl s3;
                               eneg = (s4 \<noteq> [] \<and> hd s4 = CHR ''-'');
                               s5 = (if s4 \<noteq> [] \<and> (hd s4 = CHR ''-'' \<or> hd s4 = CHR ''+'')
                                     then tl s4 else s4)
                           in case json_digits s5 of
                                None \<Rightarrow> None
                              | Some (ep, s6) \<Rightarrow>
                                  Some (if eneg then sgn / 10 ^ nat_of_digits ep
                                        else sgn * 10 ^ nat_of_digits ep, s6))
                        else Some (sgn, s3))))"

fun json_value :: "nat \<Rightarrow> string \<Rightarrow> (jsval \<times> string) option"
  and json_elements :: "nat \<Rightarrow> jsval list \<Rightarrow> string \<Rightarrow> (jsval list \<times> string) option"
  and json_members ::
    "nat \<Rightarrow> (string \<times> jsval) list \<Rightarrow> string \<Rightarrow> ((string \<times> jsval) list \<times> string) option"
where
  "json_value 0 s = None"
| "json_value (Suc fuel) s =
     (case skip_ws s of
        [] \<Rightarrow> None
      | c # cs \<Rightarrow>
          if c = CHR ''['' then
            (case skip_ws cs of
               [] \<Rightarrow> None
             | d # ds \<Rightarrow>
                 if d = CHR '']'' then Some (JArr [], ds)
                 else (case json_elements fuel [] cs of
                         None \<Rightarrow> None
                       | Some (xs, rest) \<Rightarrow> Some (JArr xs, rest)))
          else if c = CHR ''{'' then
            (case skip_ws cs of
               [] \<Rightarrow> None
             | d # ds \<Rightarrow>
                 if d = CHR ''}'' then Some (JObj [], ds)
                 else (case json_members fuel [] cs of
                         None \<Rightarrow> None
                       | Some (ms, rest) \<Rightarrow> Some (JObj ms, rest)))
          else if c = CHR 0x22 then
            (case json_string [] cs of
               None \<Rightarrow> None
             | Some (str, rest) \<Rightarrow> Some (JStr str, rest))
          else if take 4 (c # cs) = ''true'' then Some (JBool True, drop 4 (c # cs))
          else if take 5 (c # cs) = ''false'' then Some (JBool False, drop 5 (c # cs))
          else if take 4 (c # cs) = ''null'' then Some (JNull, drop 4 (c # cs))
          else (case json_number (c # cs) of
                  None \<Rightarrow> None
                | Some (q, rest) \<Rightarrow> Some (JNum q, rest)))"
| "json_elements 0 acc s = None"
| "json_elements (Suc fuel) acc s =
     (case json_value fuel s of
        None \<Rightarrow> None
      | Some (v, rest) \<Rightarrow>
          (case skip_ws rest of
             [] \<Rightarrow> None
           | d # ds \<Rightarrow>
               if d = CHR '','' then json_elements fuel (v # acc) ds
               else if d = CHR '']'' then Some (rev (v # acc), ds)
               else None))"
| "json_members 0 acc s = None"
| "json_members (Suc fuel) acc s =
     (case skip_ws s of
        [] \<Rightarrow> None
      | q # qs \<Rightarrow>
          if q \<noteq> CHR 0x22 then None
          else (case json_string [] qs of
                  None \<Rightarrow> None
                | Some (key, rest) \<Rightarrow>
                    (case skip_ws rest of
                       [] \<Rightarrow> None
                     | c # cs \<Rightarrow>
                         if c \<noteq> CHR '':'' then None
                         else (case json_value fuel cs of
                                 None \<Rightarrow> None
                               | Some (v, rest') \<Rightarrow>
                                   (case skip_ws rest' of
                                      [] \<Rightarrow> None
                                    | d # ds \<Rightarrow>
                                        if d = CHR '','' then json_members fuel ((key, v) # acc) ds
                                        else if d = CHR ''}'' then Some (rev ((key, v) # acc), ds)
                                        else None)))))"

definition JSON_parse :: "string \<Rightarrow> jsval option" where
  "JSON_parse s =
     (case json_value (2 * length s + 2) s of
        None \<Rightarrow> None
      | Some (v, rest) \<Rightarrow> if skip_ws rest = [] then Some v else None)"

section \<open>The clean-and-import script with array literals (src/unnamed/part_001)\<close>

text \<open>The functions of this script that share a name with one of the production
  import carry the suffix \<open>_clean\<close>. Its \<^verbatim>\<open>calculateDurationMinutes\<close> is, word for word,
  that of \<^verbatim>\<open>import-course-schedule-from-output.ts\<close> too.\<close>

text \<open>\<^verbatim>\<open>/'([^']+)'/g\<close>\<close>

definition quoted_rx :: rx where
  "quoted_rx = Seq (Cls [CHR 0x27]) (Seq (Group 1 (Many1 (NCls [CHR 0x27]))) (Cls [CHR 0x27]))"

text \<open>\<^verbatim>\<open>item && typeof item === 'string' && item.trim() !== ''\<close>\<close>

definition nonblank_string :: "jsval \<Rightarrow> string option" where
  "nonblank_string item =
     (case item of JStr str \<Rightarrow> if str \<noteq> [] \<and> trim str \<noteq> [] then Some str else None
      | _ \<Rightarrow> None)"

text \<open>\<open>None\<close> is the \<^verbatim>\<open>undefined\<close> that the function returns for "no submodules".\<close>

definition parseSubmoduleTitle_clean :: "string \<Rightarrow> string list option" where
  "parseSubmoduleTitle_clean submoduleTitle =
     (if submoduleTitle = [] \<or> trim submoduleTitle = [] \<or>
         toUpperCase (trim submoduleTitle) = ''NULL'' \<or> trim submoduleTitle = ''#NAME?''
      then None
      else
        let trimmed = trim submoduleTitle
        in if trimmed = ''[]'' \<or> trimmed = [] then None
           else
             (case JSON_parse (replace_char (CHR 0x27) (CHR 0x22) trimmed) of
                Some parsed \<Rightarrow>
                  (case parsed of
                     JArr xs \<Rightarrow>
                       (let filtered = List.map_filter nonblank_string xs
                        in if length filtered > 0 then Some filtered else None)
                   | _ \<Rightarrow> None)
              | None \<Rightarrow>
                  (let matches = rx_match_all quoted_rx trimmed
                   in if length matches > 0 then
                        (let items = filter (\<lambda>m. length m > 0)
                                       (map (\<lambda>m. trim (remove_char (CHR 0x27) m)) matches)
                         in if length items > 0 then Some items else None)
                      else None)))"

text \<open>Here the times are split as they come, and nothing in the \<^verbatim>\<open>try\<close> block throws
  for a text argument, so the \<^verbatim>\<open>catch\<close> with its 120 is never entered.\<close>

definition calculateDurationMinutes_clean :: "string \<Rightarrow> string \<Rightarrow> jsnum" where
  "calculateDurationMinutes_clean startTime' endTime' =
     (let startTotal = total_minutes startTime';
          endTotal = total_minutes endTime';
          duration = num_sub endTotal startTotal
      in if num_lt duration (Num 0) then num_add duration (Num (24 * 60)) else duration)"

section \<open>The store and the production import loop\<close>


record CourseSchedule =
  cs_id :: string
  courseId :: string
  cs_dayNumber :: jsnum
  cs_startTime :: string
  cs_endTime :: string
  cs_moduleTitle :: jsval
  submoduleTitle :: jsval
  cs_durationMinutes :: jsnum
  createdAt :: int

text \<open>The table \<^verbatim>\<open>course_schedule\<close> in insertion order, with \<open>id\<close> as its unique key.\<close>

type_synonym store = "CourseSchedule list"

definition findUnique :: "store \<Rightarrow> string \<Rightarrow> CourseSchedule option" where
  "findUnique st i = find (\<lambda>row. cs_id row = i) st"

definition create :: "store \<Rightarrow> CourseSchedule \<Rightarrow> js_error + store" where
  "create st row =
     (if findUnique st (cs_id row) \<noteq> None then Inl UniqueConstraintViolation
      else Inr (st @ [row]))"

text \<open>What comes from the platform: \<^verbatim>\<open>new Date(s)\<close> as milliseconds (\<open>None\<close> for an
  invalid date), the clock read while row \<open>i\<close> is processed, and the identifier that the
  store generates at its \<open>k\<close>-th call for an entry that brings none.\<close>

record platform =
  Date_parse :: "string \<Rightarrow> int option"
  clock :: "nat \<Rightarrow> int"
  uuid :: "nat \<Rightarrow> string"










section \<open>The replace-save of the editing surface\<close>

text \<open>
  The routine that persists the flattened schedule of one course is not among the
  sources: \<^verbatim>\<open>ScheduleBuilder.tsx\<close> hands the flattened items to \<^verbatim>\<open>onChange\<close> and the
  service behind it is absent. The definitions of this section follow the
  specification's sections on the data model, the external interfaces and the error
  handling.
\<close>

text \<open>Modelled from the spec: \<^verbatim>\<open>listEntriesForCourse\<close> and \<^verbatim>\<open>deleteAllEntriesForCourse\<close> of
  the persisted schedule store (the store's code is not under src): the entries of one
  course, and the store without them.\<close>

definition listEntriesForCourse :: "store \<Rightarrow> string \<Rightarrow> CourseSchedule list" where
  "listEntriesForCourse st c = filter (\<lambda>row. courseId row = c) st"

definition deleteAllEntriesForCourse :: "store \<Rightarrow> string \<Rightarrow> store" where
  "deleteAllEntriesForCourse st c = filter (\<lambda>row. courseId row \<noteq> c) st"

text \<open>Modelled from the spec: \<^verbatim>\<open>createEntry\<close> of the store (not under src). The store assigns
  the identifier; the entry is refused when the identifier is taken (a constraint
  violation).\<close>

definition createEntry :: "platform \<Rightarrow> nat \<Rightarrow> store \<Rightarrow> CourseSchedule \<Rightarrow> js_error + store" where
  "createEntry pf k st entry = create st (entry\<lparr>cs_id := uuid pf k\<rparr>)"

text \<open>Modelled from the spec: the bulk of \<^verbatim>\<open>createEntry\<close> calls of a save (the save routine
  is not under src). \<open>up k\<close> tells whether the store is available at the \<open>k\<close>-th call of the
  save; the calls stop at the first persistence failure.\<close>

fun createEntries ::
  "(nat \<Rightarrow> bool) \<Rightarrow> platform \<Rightarrow> nat \<Rightarrow> store \<Rightarrow> CourseSchedule list \<Rightarrow> js_error + store" where
  "createEntries up pf k st [] = Inr st"
| "createEntries up pf k st (entry # entries) =
     (if \<not> up k then Inl StoreUnavailable
      else case createEntry pf k st entry of
             Inl e \<Rightarrow> Inl e
           | Inr st' \<Rightarrow> createEntries up pf (Suc k) st' entries)"

text \<open>Modelled from the spec: the delete and recreate of a save (the save routine is not
  under src): call 0 deletes all entries of the course, the calls from 1 on create the
  full set from the flattened tree, each entry under this course.\<close>

definition replaceEntries ::
  "(nat \<Rightarrow> bool) \<Rightarrow> platform \<Rightarrow> string \<Rightarrow> CourseSchedule list \<Rightarrow> store \<Rightarrow> js_error + store" where
  "replaceEntries up pf c entries st =
     (if \<not> up 0 then Inl StoreUnavailable
      else createEntries up pf 1 (deleteAllEntriesForCourse st c)
             (map (\<lambda>entry. entry\<lparr>courseId := c\<rparr>) entries))"

datatype save_result = Saved | SaveFailed js_error

text \<open>Modelled from the spec: the all-or-nothing transaction boundary that the
  specification requires around the delete and recreate (the save routine is not under
  src): a failure inside rolls back to the store as it was and is reported as one failed
  save.\<close>

definition transaction :: "(store \<Rightarrow> js_error + store) \<Rightarrow> store \<Rightarrow> store \<times> save_result" where
  "transaction body st =
     (case body st of Inl e \<Rightarrow> (st, SaveFailed e) | Inr st' \<Rightarrow> (st', Saved))"

text \<open>Modelled from the spec: the whole-schedule replace-save of the editing surface (not
  under src).\<close>

definition saveSchedule ::
  "(nat \<Rightarrow> bool) \<Rightarrow> platform \<Rightarrow> string \<Rightarrow> CourseSchedule list \<Rightarrow> store \<Rightarrow> store \<times> save_result" where
  "saveSchedule up pf c entries st = transaction (replaceEntries up pf c entries) st"

section \<open>Notions used in the statements\<close>

text \<open>The slots of a template: the days 1 to \<open>daysCount\<close>, each with the start times of
  the sessions.\<close>

definition slots_of :: "Session list \<Rightarrow> int \<Rightarrow> (int \<times> string) set" where
  "slots_of sessions daysCount = {1..daysCount} \<times> startTime ` set sessions"

definition in_slot :: "Session list \<Rightarrow> int \<Rightarrow> ScheduleItem \<Rightarrow> bool" where
  "in_slot sessions daysCount e = ((day_number e, start_time e) \<in> slots_of sessions daysCount)"

text \<open>The four components of an item that the round trip is about.\<close>

definition entry_tuple :: "ScheduleItem \<Rightarrow> int \<times> string \<times> jsval \<times> jsval" where
  "entry_tuple e = (day_number e, start_time e, module_title e, i_submodules e)"

text \<open>The modules of all sessions of a map, each with the day and the start time of its
  session, and what the grouping makes of one item.\<close>

definition module_tuples :: "SessionData jsmap \<Rightarrow> (int \<times> string \<times> string \<times> jsval list) list" where
  "module_tuples m =
     concat (map (\<lambda>(k, v). map (\<lambda>md. (dayNumber v, s_startTime v, moduleTitle md, submodules md))
                               (modules v)) m)"

definition grouped_tuple :: "ScheduleItem \<Rightarrow> int \<times> string \<times> string \<times> jsval list" where
  "grouped_tuple e =
     (day_number e, start_time e, moduleTitle_of (module_title e), submodules_of (i_submodules e))"

text \<open>Invariants of the session map: every key is the key of its session and the days
  are positive; the slots that have a session; no session has a module yet.\<close>

definition keyed :: "SessionData jsmap \<Rightarrow> bool" where
  "keyed m = (\<forall>(k, v) \<in> set m. k = session_key (dayNumber v) (s_startTime v) \<and> 1 \<le> dayNumber v)"

definition slot_set :: "SessionData jsmap \<Rightarrow> (int \<times> string) set" where
  "slot_set m = (\<lambda>(k, v). (dayNumber v, s_startTime v)) ` set m"

definition empty_sessions :: "SessionData jsmap \<Rightarrow> bool" where
  "empty_sessions m = (\<forall>(k, v) \<in> set m. modules v = [])"

text \<open>An item with the field types of a schedule entry: the title a text, the
  submodules a list.\<close>

definition is_entry :: "ScheduleItem \<Rightarrow> bool" where
  "is_entry e = ((\<exists>t. module_title e = JStr t) \<and> (\<exists>xs. i_submodules e = JArr xs))"

text \<open>Sample data for the instances below.\<close>

definition example_gen :: "nat \<Rightarrow> string" where
  "example_gen n = ''module-'' @ string_of_nat n"

definition example_item :: "string \<Rightarrow> int \<Rightarrow> string \<Rightarrow> jsval \<Rightarrow> ScheduleItem" where
  "example_item i d s t =
     \<lparr>i_id = i, day_number = d, start_time = s, end_time = ''11:00'', module_title = t,
      submodule_title = JNull, duration_minutes = 120, i_submodules = JArr [JStr ''Topic'']\<rparr>"




definition example_platform :: platform where
  "example_platform =
     \<lparr>Date_parse = (\<lambda>s. None), clock = (\<lambda>i. int i), uuid = (\<lambda>i. ''generated-'' @ string_of_nat i)\<rparr>"


definition example_stored :: "string \<Rightarrow> CourseSchedule" where
  "example_stored i =
     \<lparr>cs_id = i, courseId = ''c1'', cs_dayNumber = Num 1, cs_startTime = ''09:00'',
      cs_endTime = ''11:00'', cs_moduleTitle = JStr ''Old'', submoduleTitle = JUndefined,
      cs_durationMinutes = Num 120, createdAt = 0\<rparr>"

text \<open>A store that is available at every call but the \<open>n\<close>-th.\<close>

definition available_except :: "nat \<Rightarrow> nat \<Rightarrow> bool" where
  "available_except n k = (k \<noteq> n)"

text \<open>The rows that a save creates: each entry under the course, with the identifier
  the store assigns at its call.\<close>

definition saved_rows :: "platform \<Rightarrow> string \<Rightarrow> nat \<Rightarrow> CourseSchedule list \<Rightarrow> CourseSchedule list" where
  "saved_rows pf c k entries =
     map (\<lambda>(j, entry). entry\<lparr>courseId := c, cs_id := uuid pf j\<rparr>) (enumerate k entries)"

text \<open>The duration as the specification words it, on minutes since midnight: end minus
  start, with 1440 added when the end is earlier than the start. And the minutes since
  midnight of the time written with the digits \<open>a b : c d\<close>.\<close>

definition claimed_duration :: "int \<Rightarrow> int \<Rightarrow> int" where
  "claimed_duration startTotal endTotal =
     (if endTotal < startTotal then endTotal - startTotal + 1440 else endTotal - startTotal)"

definition clock_minutes :: "char \<Rightarrow> char \<Rightarrow> char \<Rightarrow> char \<Rightarrow> int" where
  "clock_minutes a b c d =
     int ((10 * digit_val a + digit_val b) * 60 + (10 * digit_val c + digit_val d))"







section \<open>Properties of the schedule transform\<close>

subsection \<open>Keys\<close>

lemma digit_chars_nth_inj:
  "i < 10 \<Longrightarrow> j < 10 \<Longrightarrow> digit_chars ! i = digit_chars ! j \<Longrightarrow> i = j"
proof -
  assume a: "i < 10" "j < 10" "digit_chars ! i = digit_chars ! j"
  have d: "distinct digit_chars" by (simp add: digit_chars_def)
  have l: "length digit_chars = 10" by (simp add: digit_chars_def)
  from a d l show "i = j" by (simp add: nth_eq_iff_index_eq)
qed

lemma digit_chars_nth_mem: "i < 10 \<Longrightarrow> digit_chars ! i \<in> set digit_chars"
proof -
  assume "i < 10"
  moreover have "length digit_chars = 10" by (simp add: digit_chars_def)
  ultimately show ?thesis using nth_mem [of i digit_chars] by simp
qed

lemma string_of_nat_digits: "set (string_of_nat n) \<subseteq> set digit_chars"
proof (induction n rule: string_of_nat.induct)
  case (1 n)
  show ?case
  proof (cases "n < 10")
    case True
    then show ?thesis using digit_chars_nth_mem [of n] by (subst string_of_nat.simps) simp
  next
    case False
    then show ?thesis using 1 digit_chars_nth_mem [of "n mod 10"]
      by (subst string_of_nat.simps) simp
  qed
qed

lemma string_of_nat_nonempty: "string_of_nat n \<noteq> []"
  by (subst string_of_nat.simps) simp

lemma string_of_nat_inj: "string_of_nat n = string_of_nat m \<Longrightarrow> n = m"
proof (induction n arbitrary: m rule: string_of_nat.induct)
  case (1 n)
  show ?case
  proof (cases "n < 10")
    case n: True
    show ?thesis
    proof (cases "m < 10")
      case True
      with n 1(2) show ?thesis
        using digit_chars_nth_inj [of n m] by (simp add: string_of_nat.simps [of n] string_of_nat.simps [of m])
    next
      case False
      with n 1(2) have "[digit_chars ! n] = string_of_nat (m div 10) @ [digit_chars ! (m mod 10)]"
        by (simp add: string_of_nat.simps [of n] string_of_nat.simps [of m])
      then show ?thesis using string_of_nat_nonempty [of "m div 10"] by simp
    qed
  next
    case n: False
    show ?thesis
    proof (cases "m < 10")
      case True
      with n 1(2) have "string_of_nat (n div 10) @ [digit_chars ! (n mod 10)] = [digit_chars ! m]"
        by (simp add: string_of_nat.simps [of n] string_of_nat.simps [of m])
      then show ?thesis using string_of_nat_nonempty [of "n div 10"] by simp
    next
      case False
      with n 1(2) have e: "string_of_nat (n div 10) = string_of_nat (m div 10)"
        and d: "digit_chars ! (n mod 10) = digit_chars ! (m mod 10)"
        by (simp_all add: string_of_nat.simps [of n] string_of_nat.simps [of m])
      from 1(1) [OF n e] have q: "n div 10 = m div 10" .
      from d have r: "n mod 10 = m mod 10" using digit_chars_nth_inj [of "n mod 10" "m mod 10"] by simp
      from q r show ?thesis by (metis div_mult_mod_eq)
    qed
  qed
qed

lemma split_at_dash:
  assumes "xs @ CHR ''-'' # s = ys @ CHR ''-'' # t" "CHR ''-'' \<notin> set xs" "CHR ''-'' \<notin> set ys"
  shows "xs = ys \<and> s = t"
  using assms
proof (induction xs arbitrary: ys)
  case Nil
  then show ?case by (cases ys) auto
next
  case (Cons a xs)
  then show ?case by (cases ys) auto
qed

lemma dash_not_digit: "CHR ''-'' \<notin> set digit_chars"
  by (simp add: digit_chars_def)

lemma session_key_inj:
  assumes "session_key d s = session_key e t" "0 \<le> d"
  shows "d = e \<and> s = t"
proof (cases "e < 0")
  case True
  with assms have "string_of_nat (nat d) @ ''-'' @ s = CHR ''-'' # string_of_nat (nat (- e)) @ ''-'' @ t"
    by (simp add: session_key_def string_of_int_def)
  moreover have "hd (string_of_nat (nat d) @ ''-'' @ s) \<in> set digit_chars"
    using string_of_nat_digits [of "nat d"] string_of_nat_nonempty [of "nat d"]
    by (cases "string_of_nat (nat d)") auto
  ultimately show ?thesis using dash_not_digit by simp
next
  case False
  with assms have "string_of_nat (nat d) @ CHR ''-'' # s = string_of_nat (nat e) @ CHR ''-'' # t"
    by (simp add: session_key_def string_of_int_def)
  then have "string_of_nat (nat d) = string_of_nat (nat e) \<and> s = t"
    using split_at_dash string_of_nat_digits dash_not_digit by blast
  then show ?thesis using string_of_nat_inj [of "nat d" "nat e"] False assms(2) by auto
qed

subsection \<open>The session map\<close>

lemma map_of_map_set: "map_of (map_set m k v) = (map_of m)(k \<mapsto> v)"
  by (induction m) (auto simp: fun_eq_iff)

lemma keys_map_set:
  "map fst (map_set m k v) = (if k \<in> set (map fst m) then map fst m else map fst m @ [k])"
  by (induction m) (auto simp: rev_image_eqI)

lemma set_keys_map_set: "set (map fst (map_set m k v)) = insert k (set (map fst m))"
  by (auto simp: keys_map_set)

lemma distinct_map_set: "distinct (map fst m) \<Longrightarrow> distinct (map fst (map_set m k v))"
  by (simp add: keys_map_set)

lemma set_map_set_subset: "set (map_set m k v) \<subseteq> insert (k, v) (set m)"
  by (induction m) (auto split: if_splits)

lemma keyed_map_set:
  "keyed m \<Longrightarrow> k = session_key (dayNumber v) (s_startTime v) \<Longrightarrow> 1 \<le> dayNumber v
     \<Longrightarrow> keyed (map_set m k v)"
  using set_map_set_subset [of m k v] unfolding keyed_def by blast

lemma slot_set_map_set:
  "keyed m \<Longrightarrow> k = session_key (dayNumber v) (s_startTime v) \<Longrightarrow> 1 \<le> dayNumber v
     \<Longrightarrow> slot_set (map_set m k v) = insert (dayNumber v, s_startTime v) (slot_set m)"
proof (induction m)
  case Nil
  then show ?case by (simp add: slot_set_def)
next
  case (Cons a m)
  obtain k' v' where a: "a = (k', v')" by (cases a)
  from Cons.prems have km: "keyed m" and a': "k' = session_key (dayNumber v') (s_startTime v')" "1 \<le> dayNumber v'"
    by (auto simp: keyed_def a)
  show ?case
  proof (cases "k' = k")
    case True
    with a' Cons.prems have "dayNumber v' = dayNumber v \<and> s_startTime v' = s_startTime v"
      using session_key_inj [of "dayNumber v'" "s_startTime v'" "dayNumber v" "s_startTime v"] by simp
    with True show ?thesis by (auto simp: slot_set_def a)
  next
    case False
    have "slot_set (map_set m k v) = insert (dayNumber v, s_startTime v) (slot_set m)"
      using Cons.IH [OF km Cons.prems(2,3)] .
    with False show ?thesis by (auto simp: slot_set_def a)
  qed
qed

lemma empty_sessions_map_set:
  "empty_sessions m \<Longrightarrow> modules v = [] \<Longrightarrow> empty_sessions (map_set m k v)"
  using set_map_set_subset [of m k v] unfolding empty_sessions_def by blast

lemma init_day_inv:
  assumes "1 \<le> day"
  shows "keyed m \<Longrightarrow> distinct (map fst m) \<Longrightarrow> empty_sessions m \<Longrightarrow>
    keyed (foldl (init_session day) m ss) \<and>
    distinct (map fst (foldl (init_session day) m ss)) \<and>
    empty_sessions (foldl (init_session day) m ss) \<and>
    slot_set (foldl (init_session day) m ss) = slot_set m \<union> {day} \<times> startTime ` set ss"
proof (induction ss arbitrary: m)
  case Nil
  then show ?case by simp
next
  case (Cons a ss)
  let ?m = "init_session day m a"
  have k: "keyed ?m" unfolding init_session_def
    by (rule keyed_map_set [OF Cons.prems(1)]) (simp_all add: assms)
  have d: "distinct (map fst ?m)" unfolding init_session_def
    by (rule distinct_map_set [OF Cons.prems(2)])
  have e: "empty_sessions ?m" unfolding init_session_def
    by (rule empty_sessions_map_set [OF Cons.prems(3)]) simp
  have s: "slot_set ?m = insert (day, startTime a) (slot_set m)" unfolding init_session_def
    using slot_set_map_set [OF Cons.prems(1), of "session_key day (startTime a)"
      "\<lparr>dayNumber = day, s_startTime = startTime a, s_endTime = endTime a,
        durationMinutes = 120, modules = []\<rparr>"] assms by simp
  from Cons.IH [OF k d e] s show ?case by auto
qed

lemma init_days_inv:
  "\<forall>d \<in> set ds. 1 \<le> d \<Longrightarrow> keyed m \<Longrightarrow> distinct (map fst m) \<Longrightarrow> empty_sessions m \<Longrightarrow>
    keyed (foldl (\<lambda>sessionMap day. foldl (init_session day) sessionMap ss) m ds) \<and>
    distinct (map fst (foldl (\<lambda>sessionMap day. foldl (init_session day) sessionMap ss) m ds)) \<and>
    empty_sessions (foldl (\<lambda>sessionMap day. foldl (init_session day) sessionMap ss) m ds) \<and>
    slot_set (foldl (\<lambda>sessionMap day. foldl (init_session day) sessionMap ss) m ds)
      = slot_set m \<union> set ds \<times> startTime ` set ss"
proof (induction ds arbitrary: m)
  case Nil
  then show ?case by simp
next
  case (Cons a ds)
  from Cons.prems(1) have a: "1 \<le> a" and ds: "\<forall>d \<in> set ds. 1 \<le> d" by simp_all
  note st = init_day_inv [OF a Cons.prems(2,3,4), of ss]
  from st have k: "keyed (foldl (init_session a) m ss)"
    and d: "distinct (map fst (foldl (init_session a) m ss))"
    and e: "empty_sessions (foldl (init_session a) m ss)"
    and s: "slot_set (foldl (init_session a) m ss) = slot_set m \<union> {a} \<times> startTime ` set ss"
    by simp_all
  from Cons.IH [OF ds k d e] s show ?case by auto
qed

lemma init_sessions_inv:
  "keyed (init_sessions ss n) \<and> distinct (map fst (init_sessions ss n)) \<and>
   empty_sessions (init_sessions ss n) \<and> slot_set (init_sessions ss n) = slots_of ss n"
proof -
  have "\<forall>d \<in> set [1..n]. 1 \<le> d" by simp
  from init_days_inv [OF this, of "[]" ss]
  show ?thesis by (simp add: init_sessions_def keyed_def empty_sessions_def slot_set_def slots_of_def)
qed

lemma map_get_None_keyed:
  assumes "keyed m"
  shows "(map_get m (session_key d s) = None) = ((d, s) \<notin> slot_set m)"
proof
  assume n: "map_get m (session_key d s) = None"
  show "(d, s) \<notin> slot_set m"
  proof
    assume "(d, s) \<in> slot_set m"
    then obtain k v where kv: "(k, v) \<in> set m" "dayNumber v = d" "s_startTime v = s"
      by (auto simp: slot_set_def)
    with assms have "k = session_key d s" by (auto simp: keyed_def)
    with kv(1) have "session_key d s \<in> fst ` set m" by force
    with n show False by (simp add: map_get_def map_of_eq_None_iff)
  qed
next
  assume n: "(d, s) \<notin> slot_set m"
  show "map_get m (session_key d s) = None"
  proof (rule ccontr)
    assume "map_get m (session_key d s) \<noteq> None"
    then obtain v where "map_of m (session_key d s) = Some v" by (auto simp: map_get_def)
    then have in_m: "(session_key d s, v) \<in> set m" by (rule map_of_SomeD)
    with assms have "session_key d s = session_key (dayNumber v) (s_startTime v)" "1 \<le> dayNumber v"
      by (auto simp: keyed_def)
    then have "dayNumber v = d \<and> s_startTime v = s"
      using session_key_inj [of "dayNumber v" "s_startTime v" d s] by simp
    with in_m have "(d, s) \<in> slot_set m" by (force simp: slot_set_def)
    with n show False by simp
  qed
qed

lemma map_get_Some_keyed:
  assumes "keyed m" "map_get m (session_key d s) = Some v"
  shows "dayNumber v = d \<and> s_startTime v = s \<and> 1 \<le> d"
proof -
  from assms(2) have in_m: "(session_key d s, v) \<in> set m"
    by (simp add: map_get_def map_of_SomeD)
  with assms(1) have "session_key d s = session_key (dayNumber v) (s_startTime v)" "1 \<le> dayNumber v"
    by (auto simp: keyed_def)
  then show ?thesis
    using session_key_inj [of "dayNumber v" "s_startTime v" d s] by simp
qed

lemma module_tuples_map_set:
  assumes "map_of m k = Some v" "dayNumber v' = dayNumber v" "s_startTime v' = s_startTime v"
    "modules v' = modules v @ [md]"
  shows "mset (module_tuples (map_set m k v')) =
         mset (module_tuples m) + {#(dayNumber v, s_startTime v, moduleTitle md, submodules md)#}"
  using assms(1)
proof (induction m)
  case Nil
  then show ?case by simp
next
  case (Cons a m)
  obtain k0 v0 where a: "a = (k0, v0)" by (cases a)
  show ?case
  proof (cases "k0 = k")
    case True
    with Cons.prems a have "v0 = v" by simp
    with True a assms(2,3,4) show ?thesis by (simp add: module_tuples_def)
  next
    case False
    with Cons.prems a have "map_of m k = Some v" by simp
    from Cons.IH [OF this] False a show ?thesis by (simp add: module_tuples_def)
  qed
qed

lemma slot_set_map_set_same:
  assumes "map_of m k = Some v" "dayNumber v' = dayNumber v" "s_startTime v' = s_startTime v"
  shows "slot_set (map_set m k v') = slot_set m"
  using assms(1)
proof (induction m)
  case Nil
  then show ?case by simp
next
  case (Cons a m)
  obtain k0 v0 where a: "a = (k0, v0)" by (cases a)
  show ?case
  proof (cases "k0 = k")
    case True
    with Cons.prems a have "v0 = v" by simp
    with True a assms(2,3) show ?thesis by (simp add: slot_set_def)
  next
    case False
    with Cons.prems a have "map_of m k = Some v" by simp
    from Cons.IH [OF this] False a show ?thesis by (simp add: slot_set_def)
  qed
qed

lemma group_item_inv:
  assumes "keyed m"
  shows "keyed (fst (group_item gen (m, c) e)) \<and>
         map fst (fst (group_item gen (m, c) e)) = map fst m \<and>
         slot_set (fst (group_item gen (m, c) e)) = slot_set m \<and>
         mset (module_tuples (fst (group_item gen (m, c) e))) =
           mset (module_tuples m) +
             (if (day_number e, start_time e) \<in> slot_set m then {#grouped_tuple e#} else {#})"
proof (cases "map_get m (session_key (day_number e) (start_time e))")
  case None
  moreover from None have "(day_number e, start_time e) \<notin> slot_set m"
    using map_get_None_keyed [OF assms] by simp
  ultimately show ?thesis using assms by (simp add: group_item_def)
next
  case (Some v)
  let ?k = "session_key (day_number e) (start_time e)"
  let ?md = "\<lparr>m_id = (if i_id e \<noteq> [] then i_id e else gen c),
              moduleTitle = moduleTitle_of (module_title e),
              submodules = submodules_of (i_submodules e)\<rparr>"
  let ?v = "v\<lparr>modules := modules v @ [?md]\<rparr>"
  have g: "fst (group_item gen (m, c) e) = map_set m ?k ?v"
    using Some by (simp add: group_item_def Let_def)
  from map_get_Some_keyed [OF assms Some]
  have v: "dayNumber v = day_number e" "s_startTime v = start_time e" "1 \<le> day_number e" by simp_all
  from Some have mo: "map_of m ?k = Some v" by (simp add: map_get_def)
  have in_s: "(day_number e, start_time e) \<in> slot_set m"
    using map_get_None_keyed [OF assms, of "day_number e" "start_time e"] Some by auto
  have 1: "keyed (map_set m ?k ?v)"
    by (rule keyed_map_set [OF assms]) (simp_all add: v)
  have 2: "map fst (map_set m ?k ?v) = map fst m"
    using mo by (simp add: keys_map_set) (metis domI dom_map_of_conv_image_fst)
  have 3: "slot_set (map_set m ?k ?v) = slot_set m"
    by (rule slot_set_map_set_same [OF mo]) simp_all
  have 4: "mset (module_tuples (map_set m ?k ?v)) =
        mset (module_tuples m) + {#(dayNumber v, s_startTime v, moduleTitle ?md, submodules ?md)#}"
    by (rule module_tuples_map_set [OF mo]) simp_all
  from 1 2 3 4 in_s v show ?thesis by (simp add: g grouped_tuple_def)
qed

lemma group_items_inv:
  assumes "keyed m"
  shows "keyed (fst (foldl (group_item gen) (m, c) items)) \<and>
         map fst (fst (foldl (group_item gen) (m, c) items)) = map fst m \<and>
         slot_set (fst (foldl (group_item gen) (m, c) items)) = slot_set m \<and>
         mset (module_tuples (fst (foldl (group_item gen) (m, c) items))) =
           mset (module_tuples m) +
             mset (map grouped_tuple
                     (filter (\<lambda>e. (day_number e, start_time e) \<in> slot_set m) items))"
  using assms
proof (induction items arbitrary: m c)
  case Nil
  then show ?case by simp
next
  case (Cons e items)
  obtain m' c' where st: "group_item gen (m, c) e = (m', c')" by (cases "group_item gen (m, c) e")
  from group_item_inv [OF Cons.prems, of gen c e] st
  have k: "keyed m'" and f: "map fst m' = map fst m" and s: "slot_set m' = slot_set m"
    and t: "mset (module_tuples m') = mset (module_tuples m) +
             (if (day_number e, start_time e) \<in> slot_set m then {#grouped_tuple e#} else {#})"
    by simp_all
  from Cons.IH [OF k, of c'] st f s t show ?case by simp
qed

lemma empty_sessions_tuples: "empty_sessions m \<Longrightarrow> module_tuples m = []"
  by (induction m) (auto simp: empty_sessions_def module_tuples_def)

lemma group_tuples:
  "mset (module_tuples (groupScheduleBySession gen ss n items)) =
     mset (map grouped_tuple (filter (in_slot ss n) items))"
  using init_sessions_inv [of ss n] group_items_inv [of "init_sessions ss n" gen 0 items]
  by (simp add: groupScheduleBySession_def empty_sessions_tuples in_slot_def)

lemma flatten_tuples:
  "map entry_tuple (flattenSchedule m) =
     map (\<lambda>(d, s, t, xs). (d, s, JStr t, JArr xs)) (module_tuples m)"
  by (induction m) (auto simp: flattenSchedule_def module_tuples_def entry_tuple_def flatten_module_def)

lemma flatten_group_tuples:
  "mset (map entry_tuple (flattenSchedule (groupScheduleBySession gen ss n items))) =
     mset (map (\<lambda>e. (day_number e, start_time e, JStr (moduleTitle_of (module_title e)),
                      JArr (submodules_of (i_submodules e))))
             (filter (in_slot ss n) items))"
proof -
  have "mset (map entry_tuple (flattenSchedule (groupScheduleBySession gen ss n items))) =
        image_mset (\<lambda>(d, s, t, xs). (d, s, JStr t, JArr xs))
          (mset (module_tuples (groupScheduleBySession gen ss n items)))"
    by (simp add: flatten_tuples)
  also have "\<dots> = image_mset (\<lambda>(d, s, t, xs). (d, s, JStr t, JArr xs))
          (mset (map grouped_tuple (filter (in_slot ss n) items)))"
    by (simp only: group_tuples)
  also have "\<dots> = mset (map (\<lambda>e. (day_number e, start_time e, JStr (moduleTitle_of (module_title e)),
                      JArr (submodules_of (i_submodules e))))
             (filter (in_slot ss n) items))"
    by (simp add: multiset.map_comp comp_def grouped_tuple_def)
  finally show ?thesis .
qed

lemma keys_keyed: "keyed m \<Longrightarrow> set (map fst m) = (\<lambda>(d, s). session_key d s) ` slot_set m"
  by (force simp: keyed_def slot_set_def)

lemma group_item_skip:
  assumes "keyed m" "(day_number e, start_time e) \<notin> slot_set m"
  shows "group_item gen (m, c) e = (m, c)"
  using map_get_None_keyed [OF assms(1), of "day_number e" "start_time e"] assms(2)
  by (simp add: group_item_def)

lemma group_items_filter:
  assumes "keyed m"
  shows "foldl (group_item gen) (m, c) items =
         foldl (group_item gen) (m, c) (filter (\<lambda>e. (day_number e, start_time e) \<in> slot_set m) items)"
  using assms
proof (induction items arbitrary: m c)
  case Nil
  then show ?case by simp
next
  case (Cons e items)
  show ?case
  proof (cases "(day_number e, start_time e) \<in> slot_set m")
    case True
    obtain m' c' where st: "group_item gen (m, c) e = (m', c')" by (cases "group_item gen (m, c) e")
    from group_item_inv [OF Cons.prems, of gen c e] st
    have k: "keyed m'" and s: "slot_set m' = slot_set m" by simp_all
    from Cons.IH [OF k, of c'] st s True show ?thesis by simp
  next
    case False
    from group_item_skip [OF Cons.prems False] Cons.IH [OF Cons.prems, of c] False
    show ?thesis by simp
  qed
qed

lemma slots_key_inj: "inj_on (\<lambda>(d, s). session_key d s) (slots_of sessions daysCount)"
proof (rule inj_onI)
  fix x y assume "x \<in> slots_of sessions daysCount" "y \<in> slots_of sessions daysCount"
    "(case x of (d, s) \<Rightarrow> session_key d s) = (case y of (d, s) \<Rightarrow> session_key d s)"
  then show "x = y"
    using session_key_inj [of "fst x" "snd x" "fst y" "snd y"]
    by (cases x; cases y) (auto simp: slots_of_def)
qed

lemma in_slot_example [simp]:
  "in_slot FULL_DAY_SESSIONS 2 (example_item i d s t) = (d \<in> {1, 2} \<and> s \<in> {''09:00'', ''11:00'', ''14:00'', ''16:00''})"
  by (auto simp: in_slot_def slots_of_def FULL_DAY_SESSIONS_def example_item_def)

subsection \<open>The round trip\<close>

text \<open>
  Claim C1. For every list of schedule entries (items whose title is a text and whose
  submodules are a list) whose day and start time are all slots of the template,
  flattening the grouped map gives the same multiset of (day, start time, title,
  submodules) as the list itself.
\<close>

theorem roundtrip_flatten_group:
  assumes "\<forall>e \<in> set items. in_slot sessions daysCount e"
    and "\<forall>e \<in> set items. is_entry e"
  shows "mset (map entry_tuple (flattenSchedule (groupScheduleBySession gen sessions daysCount items)))
         = mset (map entry_tuple items)"
proof -
  from assms(1) have f: "filter (in_slot sessions daysCount) items = items" by simp
  have "map (\<lambda>e. (day_number e, start_time e, JStr (moduleTitle_of (module_title e)),
                      JArr (submodules_of (i_submodules e)))) items = map entry_tuple items"
    using assms(2) by (auto simp: is_entry_def entry_tuple_def moduleTitle_of_def submodules_of_def)
  with flatten_group_tuples [of gen sessions daysCount items] f show ?thesis by simp
qed

theorem roundtrip_flatten_group_witness:
  "in_slot FULL_DAY_SESSIONS 2 (example_item ''a'' 1 ''09:00'' (JStr ''Intro'')) \<and>
   in_slot FULL_DAY_SESSIONS 2 (example_item [] 1 ''09:00'' (JStr ''Basics'')) \<and>
   in_slot FULL_DAY_SESSIONS 2 (example_item ''c'' 2 ''14:00'' (JStr ''Review'')) \<and>
   is_entry (example_item ''a'' 1 ''09:00'' (JStr ''Intro'')) \<and>
   is_entry (example_item [] 1 ''09:00'' (JStr ''Basics'')) \<and>
   is_entry (example_item ''c'' 2 ''14:00'' (JStr ''Review'')) \<and>
   mset (map entry_tuple (flattenSchedule (groupScheduleBySession example_gen FULL_DAY_SESSIONS 2
      [example_item ''a'' 1 ''09:00'' (JStr ''Intro''), example_item [] 1 ''09:00'' (JStr ''Basics''),
       example_item ''c'' 2 ''14:00'' (JStr ''Review'')])))
   = mset (map entry_tuple
      [example_item ''a'' 1 ''09:00'' (JStr ''Intro''), example_item [] 1 ''09:00'' (JStr ''Basics''),
       example_item ''c'' 2 ''14:00'' (JStr ''Review'')])"
proof -
  let ?a = "example_item ''a'' 1 ''09:00'' (JStr ''Intro'')"
  let ?b = "example_item [] 1 ''09:00'' (JStr ''Basics'')"
  let ?c = "example_item ''c'' 2 ''14:00'' (JStr ''Review'')"
  have s: "in_slot FULL_DAY_SESSIONS 2 ?a" "in_slot FULL_DAY_SESSIONS 2 ?b"
    "in_slot FULL_DAY_SESSIONS 2 ?c" by simp_all
  have t: "is_entry ?a" "is_entry ?b" "is_entry ?c"
    by (simp_all add: is_entry_def example_item_def)
  from s have h1: "\<forall>e \<in> set [?a, ?b, ?c]. in_slot FULL_DAY_SESSIONS 2 e" by simp
  from t have h2: "\<forall>e \<in> set [?a, ?b, ?c]. is_entry e" by simp
  from s t roundtrip_flatten_group [OF h1 h2, of example_gen] show ?thesis by (intro conjI)
qed

subsection \<open>The sessions of the grouped map\<close>

text \<open>
  Claim C2. For every item list and template, the keys of the grouped map are distinct
  and are exactly the keys of the slots (days 1 to \<open>daysCount\<close> with the start times of
  the template), different slots have different keys, every session sits under the key
  of its own day and start time, and without items every session is empty. An item
  outside the slots leaves no trace: the grouped map is the one of the items inside the
  slots, and its modules are those made from these items.
\<close>

theorem group_sessions_are_template_slots:
  "distinct (map fst (groupScheduleBySession gen sessions daysCount items)) \<and>
   set (map fst (groupScheduleBySession gen sessions daysCount items))
     = (\<lambda>(d, s). session_key d s) ` slots_of sessions daysCount \<and>
   inj_on (\<lambda>(d, s). session_key d s) (slots_of sessions daysCount) \<and>
   (\<forall>(k, v) \<in> set (groupScheduleBySession gen sessions daysCount items).
      k = session_key (dayNumber v) (s_startTime v)) \<and>
   (\<forall>(k, v) \<in> set (groupScheduleBySession gen sessions daysCount []). modules v = []) \<and>
   groupScheduleBySession gen sessions daysCount items
     = groupScheduleBySession gen sessions daysCount (filter (in_slot sessions daysCount) items) \<and>
   mset (module_tuples (groupScheduleBySession gen sessions daysCount items))
     = mset (map grouped_tuple (filter (in_slot sessions daysCount) items))"
proof -
  let ?g = "groupScheduleBySession gen sessions daysCount items"
  note init = init_sessions_inv [of sessions daysCount]
  from init have k0: "keyed (init_sessions sessions daysCount)" by simp
  note inv = group_items_inv [OF k0, of gen 0 items]
  from inv have k: "keyed ?g" and f: "map fst ?g = map fst (init_sessions sessions daysCount)"
    and s: "slot_set ?g = slot_set (init_sessions sessions daysCount)"
    by (simp_all add: groupScheduleBySession_def)
  have 1: "distinct (map fst ?g)" using f init by simp
  have 2: "set (map fst ?g) = (\<lambda>(d, s). session_key d s) ` slots_of sessions daysCount"
    using keys_keyed [OF k] s init by simp
  have 4: "\<forall>(k, v) \<in> set ?g. k = session_key (dayNumber v) (s_startTime v)"
    using k by (auto simp: keyed_def)
  have 5: "\<forall>(k, v) \<in> set (groupScheduleBySession gen sessions daysCount []). modules v = []"
    using init by (simp add: groupScheduleBySession_def empty_sessions_def)
  have 6: "?g = groupScheduleBySession gen sessions daysCount (filter (in_slot sessions daysCount) items)"
    using group_items_filter [OF k0, of gen 0 items] init
    by (simp add: groupScheduleBySession_def in_slot_def [abs_def])
  have 3: "inj_on (\<lambda>(d, s). session_key d s) (slots_of sessions daysCount)"
    by (rule slots_key_inj)
  have 7: "mset (module_tuples ?g) = mset (map grouped_tuple (filter (in_slot sessions daysCount) items))"
    by (rule group_tuples)
  show ?thesis
    apply (intro conjI)
          apply (rule 1)
         apply (rule 2)
        apply (rule 3)
       apply (rule 4)
      apply (rule 5)
     apply (rule 6)
    apply (rule 7)
    done
qed

theorem group_sessions_are_template_slots_witness:
  "distinct (map fst (groupScheduleBySession example_gen FULL_DAY_SESSIONS 2
      [example_item ''a'' 1 ''09:00'' (JStr ''Intro''), example_item ''b'' 3 ''09:00'' (JStr ''Stale'')])) \<and>
   set (map fst (groupScheduleBySession example_gen FULL_DAY_SESSIONS 2
      [example_item ''a'' 1 ''09:00'' (JStr ''Intro''), example_item ''b'' 3 ''09:00'' (JStr ''Stale'')]))
     = (\<lambda>(d, s). session_key d s) ` slots_of FULL_DAY_SESSIONS 2 \<and>
   inj_on (\<lambda>(d, s). session_key d s) (slots_of FULL_DAY_SESSIONS 2) \<and>
   list_all (\<lambda>(k, v). k = session_key (dayNumber v) (s_startTime v))
     (groupScheduleBySession example_gen FULL_DAY_SESSIONS 2
      [example_item ''a'' 1 ''09:00'' (JStr ''Intro''), example_item ''b'' 3 ''09:00'' (JStr ''Stale'')]) \<and>
   list_all (\<lambda>(k, v). modules v = []) (groupScheduleBySession example_gen FULL_DAY_SESSIONS 2 []) \<and>
   groupScheduleBySession example_gen FULL_DAY_SESSIONS 2
      [example_item ''a'' 1 ''09:00'' (JStr ''Intro''), example_item ''b'' 3 ''09:00'' (JStr ''Stale'')]
     = groupScheduleBySession example_gen FULL_DAY_SESSIONS 2
         [example_item ''a'' 1 ''09:00'' (JStr ''Intro'')] \<and>
   mset (module_tuples (groupScheduleBySession example_gen FULL_DAY_SESSIONS 2
      [example_item ''a'' 1 ''09:00'' (JStr ''Intro''), example_item ''b'' 3 ''09:00'' (JStr ''Stale'')]))
     = mset [(1, ''09:00'', ''Intro'', [JStr ''Topic''])]"
proof -
  let ?a = "example_item ''a'' 1 ''09:00'' (JStr ''Intro'')"
  let ?b = "example_item ''b'' 3 ''09:00'' (JStr ''Stale'')"
  have f: "filter (in_slot FULL_DAY_SESSIONS 2) [?a, ?b] = [?a]" by simp
  have g: "map grouped_tuple [?a] = [(1, ''09:00'', ''Intro'', [JStr ''Topic''])]"
    by (simp add: grouped_tuple_def example_item_def moduleTitle_of_def submodules_of_def)
  show ?thesis
    using group_sessions_are_template_slots [of example_gen FULL_DAY_SESSIONS 2 "[?a, ?b]"]
    unfolding f g list_all_iff .
qed

subsection \<open>Titles that are not a text\<close>

text \<open>
  Claim C10. For an item inside the slots whose \<open>module_title\<close> is not a text, the
  grouping makes a module with the empty title in the session of the item, flattening
  emits an item with that day, start time and submodules and the title \<open>''\<close>, and no
  emitted item carries the original title.
\<close>

theorem nonstring_title_erased:
  assumes "e \<in> set items" "in_slot sessions daysCount e" "\<forall>t. module_title e \<noteq> JStr t"
  shows "(day_number e, start_time e, [], submodules_of (i_submodules e))
           \<in> set (module_tuples (groupScheduleBySession gen sessions daysCount items)) \<and>
         (day_number e, start_time e, JStr [], JArr (submodules_of (i_submodules e)))
           \<in> set (map entry_tuple (flattenSchedule (groupScheduleBySession gen sessions daysCount items))) \<and>
         (\<forall>x \<in> set (flattenSchedule (groupScheduleBySession gen sessions daysCount items)).
            module_title x \<noteq> module_title e)"
proof -
  let ?g = "groupScheduleBySession gen sessions daysCount items"
  from assms(3) have t: "moduleTitle_of (module_title e) = []"
    by (cases "module_title e") (simp_all add: moduleTitle_of_def)
  from assms(1,2) have "e \<in> set (filter (in_slot sessions daysCount) items)" by simp
  then have "grouped_tuple e \<in># mset (map grouped_tuple (filter (in_slot sessions daysCount) items))"
    by simp
  then have "grouped_tuple e \<in># mset (module_tuples ?g)" by (simp only: group_tuples)
  then have 1: "(day_number e, start_time e, [], submodules_of (i_submodules e)) \<in> set (module_tuples ?g)"
    by (simp add: grouped_tuple_def t)
  then have 2: "(day_number e, start_time e, JStr [], JArr (submodules_of (i_submodules e)))
           \<in> set (map entry_tuple (flattenSchedule ?g))"
    by (force simp: flatten_tuples)
  from assms(3) have "\<And>t. JStr t \<noteq> module_title e" by metis
  then have 3: "\<forall>x \<in> set (flattenSchedule ?g). module_title x \<noteq> module_title e"
    by (auto simp: flattenSchedule_def flatten_module_def)
  from 1 2 3 show ?thesis by blast
qed

theorem nonstring_title_erased_witness:
  "example_item ''d'' 2 ''14:00'' (JArr [JStr ''Review''])
     \<in> set [example_item ''d'' 2 ''14:00'' (JArr [JStr ''Review''])] \<and>
   in_slot FULL_DAY_SESSIONS 2 (example_item ''d'' 2 ''14:00'' (JArr [JStr ''Review''])) \<and>
   (\<forall>t. module_title (example_item ''d'' 2 ''14:00'' (JArr [JStr ''Review''])) \<noteq> JStr t) \<and>
   (2, ''14:00'', [], [JStr ''Topic''])
     \<in> set (module_tuples (groupScheduleBySession example_gen FULL_DAY_SESSIONS 2
              [example_item ''d'' 2 ''14:00'' (JArr [JStr ''Review''])])) \<and>
   (2, ''14:00'', JStr [], JArr [JStr ''Topic''])
     \<in> set (map entry_tuple (flattenSchedule (groupScheduleBySession example_gen FULL_DAY_SESSIONS 2
              [example_item ''d'' 2 ''14:00'' (JArr [JStr ''Review''])]))) \<and>
   list_all (\<lambda>x. module_title x \<noteq> JArr [JStr ''Review''])
     (flattenSchedule (groupScheduleBySession example_gen FULL_DAY_SESSIONS 2
              [example_item ''d'' 2 ''14:00'' (JArr [JStr ''Review''])]))"
proof -
  let ?e = "example_item ''d'' 2 ''14:00'' (JArr [JStr ''Review''])"
  have h1: "?e \<in> set [?e]" by simp
  have h2: "in_slot FULL_DAY_SESSIONS 2 ?e" by simp
  have h3: "\<forall>t. module_title ?e \<noteq> JStr t" by (simp add: example_item_def)
  have v: "day_number ?e = 2" "start_time ?e = ''14:00''" "module_title ?e = JArr [JStr ''Review'']"
    "submodules_of (i_submodules ?e) = [JStr ''Topic'']"
    by (simp_all add: example_item_def submodules_of_def)
  from nonstring_title_erased [OF h1 h2 h3, of example_gen] h1 h2 h3 show ?thesis
    unfolding v list_all_iff by (intro conjI) simp_all
qed

subsection \<open>The template of a course measured in days\<close>

text \<open>Where the resolver answers as specified: half days, hours, and days from one half
  on or not above zero.\<close>

lemma getSessionsAndDays_half_day:
  "getSessionsAndDays x half_day = (HALF_DAY_SESSIONS, 1)"
  by (simp add: getSessionsAndDays_def)

lemma getSessionsAndDays_hours:
  "getSessionsAndDays x hours =
     (if x \<le> 2 then [\<lparr>name = ''Session 1'', startTime = ''09:00'', endTime = ''11:00''\<rparr>]
      else HALF_DAY_SESSIONS, 1)"
  by (simp add: getSessionsAndDays_def HOUR_SESSIONS_def HALF_DAY_SESSIONS_def)

lemma getSessionsAndDays_days:
  "fst (getSessionsAndDays x days) = FULL_DAY_SESSIONS"
  "1 / 2 \<le> x \<Longrightarrow> snd (getSessionsAndDays x days) = Math_round x \<and> 1 \<le> Math_round x"
  "x \<le> 0 \<Longrightarrow> snd (getSessionsAndDays x days) = 1"
  "getSessionsAndDays 3 days = (FULL_DAY_SESSIONS, 3)"
proof -
  show "fst (getSessionsAndDays x days) = FULL_DAY_SESSIONS"
    by (simp add: getSessionsAndDays_def Let_def)
  show "1 / 2 \<le> x \<Longrightarrow> snd (getSessionsAndDays x days) = Math_round x \<and> 1 \<le> Math_round x"
  proof -
    assume a: "1 / 2 \<le> x"
    then have "1 \<le> x + 1 / 2" by simp
    then have "1 \<le> \<lfloor>x + 1 / 2\<rfloor>" by (simp add: le_floor_iff)
    with a show ?thesis by (simp add: getSessionsAndDays_def Math_round_def Let_def)
  qed
  show "x \<le> 0 \<Longrightarrow> snd (getSessionsAndDays x days) = 1"
    by (simp add: getSessionsAndDays_def Let_def)
  have "\<lfloor>(3::rat) + 1 / 2\<rfloor> = 3" by (rule floor_unique) simp_all
  then show "getSessionsAndDays 3 days = (FULL_DAY_SESSIONS, 3)"
    by (simp add: getSessionsAndDays_def Math_round_def Let_def)
qed

text \<open>
  Claim C7. The template resolver gives at least one day to a course measured in days.
  The code guards the rounding with \<^verbatim>\<open>requiredDurationHours > 0\<close> only, and a
  duration between 0 and one half rounds to no day at all: for a quarter of a day it
  answers the four sessions of a full day and the day count 0.
\<close>

theorem days_below_half_give_no_day:
  "getSessionsAndDays (1 / 4) days = (FULL_DAY_SESSIONS, 0)"
proof -
  have "\<lfloor>(3::rat) / 4\<rfloor> = 0" by (rule floor_unique) simp_all
  then show ?thesis by (simp add: getSessionsAndDays_def Math_round_def)
qed

section \<open>Properties of the text normalizers\<close>

subsection \<open>Times with a meridiem\<close>

text \<open>Whatever a match returns was returned by its continuation, so a match of the
  time pattern has its third group, and \<^verbatim>\<open>normalizeTime\<close> never throws.\<close>

lemma rx_run_result:
  "rx_run r s caps k = Some res \<Longrightarrow> \<exists>s' caps'. k s' caps' = Some res"
proof (induction r s caps k rule: rx_run.induct)
  case (1 cs s caps k)
  then show ?case by (auto split: list.splits if_splits)
next
  case (2 cs s caps k)
  then show ?case by (auto split: list.splits if_splits)
next
  case (3 s caps k)
  then show ?case by auto
next
  case (4 s caps k)
  then show ?case by (auto split: if_splits)
next
  case (5 a b s caps k)
  from 5(3) have "rx_run a s caps (\<lambda>s' caps'. rx_run b s' caps' k) = Some res" by simp
  with 5(1,2) obtain s' caps' where "rx_run b s' caps' k = Some res" by blast
  with 5(1,2) show ?case by blast
next
  case (6 a b s caps k)
  then show ?case by (auto split: option.splits)
next
  case (7 a s caps k)
  show ?case
  proof (cases "rx_run a s caps
             (\<lambda>s' caps'. if length s' < length s then rx_run (Star a) s' caps' k else None)")
    case None
    with 7(3) show ?thesis by auto
  next
    case (Some r')
    with 7(3) have r: "r' = res" by simp
    from Some r 7(1,2) obtain s' caps' where
      i: "(if length s' < length s then rx_run (Star a) s' caps' k else None) = Some res" by blast
    then have l: "length s' < length s" and "rx_run (Star a) s' caps' k = Some res"
      by (auto split: if_splits)
    with 7(1,2) show ?thesis by blast
  qed
next
  case (8 i a s caps k)
  from 8(2) have "rx_run a s caps (\<lambda>s' caps'. k s' ((i, take (length s - length s') s) # caps')) = Some res"
    by simp
  with 8(1) show ?case by blast
qed



lemma rx_run_Seq_result:
  assumes "rx_run (Seq a b) s caps k = Some res"
  shows "\<exists>s' caps'. rx_run b s' caps' k = Some res"
proof -
  from assms have "rx_run a s caps (\<lambda>s' caps'. rx_run b s' caps' k) = Some res" by simp
  from rx_run_result [OF this] show ?thesis .
qed

lemma rx_run_Group_result:
  assumes "rx_run (Group i a) s caps k = Some res"
  shows "\<exists>s' caps' m. k s' ((i, m) # caps') = Some res"
proof -
  from assms have "rx_run a s caps (\<lambda>s' caps'. k s' ((i, take (length s - length s') s) # caps')) = Some res"
    by simp
  from rx_run_result [OF this] show ?thesis by blast
qed

lemma time_rx_group3_here:
  assumes "rx_match_here time_rx s = Some (m, caps, rest)"
  shows "group caps 3 \<noteq> None"
proof -
  let ?k = "\<lambda>s' caps'. Some (s', caps' :: captures)"
  from assms obtain res where r: "rx_run time_rx s [] ?k = Some res" "caps = snd res"
    by (auto simp: rx_match_here_def split: option.splits)
  from r(1) [unfolded time_rx_def] rx_run_Seq_result obtain s1 c1 b1 where
    1: "rx_run (Seq (Opt (Cls '':'')) b1) s1 c1 ?k = Some res"
    and b1: "b1 = Seq (Opt (Group 2 (Seq digit digit))) (Seq (Star space)
         (Group 3
            (Alt (Seq (Cls ''aA'') (Seq (Opt (Cls ''.'')) (Seq (Cls ''mM'') (Opt (Cls ''.'')))))
                 (Seq (Cls ''pP'') (Seq (Opt (Cls ''.'')) (Seq (Cls ''mM'') (Opt (Cls ''.''))))))))"
    by blast
  from rx_run_Seq_result [OF 1] obtain s2 c2 where 2: "rx_run b1 s2 c2 ?k = Some res" by blast
  from rx_run_Seq_result [OF 2 [unfolded b1]] obtain s3 c3 g where
    3: "rx_run (Seq (Star space) (Group 3 g)) s3 c3 ?k = Some res" by blast
  from rx_run_Seq_result [OF 3] obtain s4 c4 where 4: "rx_run (Group 3 g) s4 c4 ?k = Some res"
    by blast
  from rx_run_Group_result [OF 4] obtain s5 c5 m5 where "res = (s5, (3, m5) # c5)" by auto
  with r(2) show ?thesis by (simp add: group_def)
qed

lemma time_rx_group3:
  "rx_match time_rx s = Some (m, caps) \<Longrightarrow> group caps 3 \<noteq> None"
proof (induction s)
  case Nil
  then show ?case using time_rx_group3_here [of "[]"]
    by (auto split: option.splits)
next
  case (Cons x xs)
  show ?case
  proof (cases "rx_match_here time_rx (x # xs)")
    case None
    with Cons show ?thesis by simp
  next
    case (Some r)
    obtain m' caps' rest where r: "r = (m', caps', rest)" by (cases r)
    with Some Cons.prems have "caps' = caps" by simp
    with Some r time_rx_group3_here [of "x # xs" m' caps' rest] show ?thesis by simp
  qed
qed

lemma normalizeTime_never_throws: "\<exists>t. normalizeTime s = Inr t"
proof (cases "rx_match time_rx (replace_char CHR ''.'' CHR '':'' (trim s))")
  case None
  then show ?thesis
    by (auto simp: normalizeTime_def Let_def split: option.splits)
next
  case (Some r)
  obtain m caps where r: "r = (m, caps)" by (cases r)
  from time_rx_group3 [OF Some [unfolded r]] obtain g3 where "group caps 3 = Some g3" by auto
  with Some r show ?thesis by (simp add: normalizeTime_def Let_def)
qed

text \<open>
  Claim C3. \<^verbatim>\<open>normalizeTime\<close> is to turn \<^verbatim>\<open>"2.00 p.m"\<close> into \<^verbatim>\<open>"14:00"\<close>, as its own comment
  says. It first replaces every dot by a colon, the dots of \<^verbatim>\<open>p.m\<close> too, so the
  meridiem \<^verbatim>\<open>p:m\<close> is not recognised any more and the time is read as a plain
  \<^verbatim>\<open>2:00\<close>: the answer is \<^verbatim>\<open>"02:00"\<close>. The other two examples of the claim hold, and a
  meridiem without dots is converted, with 12 added to whatever hour was written.
\<close>

theorem normalizeTime_dotted_pm:
  "normalizeTime ''2.00 p.m'' = Inr ''02:00'' \<and>
   normalizeTime ''9:00 a.m'' = Inr ''09:00'' \<and>
   normalizeTime [] = Inr ''09:00'' \<and>
   normalizeTime ''2:00 pm'' = Inr ''14:00'' \<and>
   normalizeTime ''99 pm'' = Inr ''111:00''"
  by code_simp

subsection \<open>Array literals\<close>



















text \<open>Both parsers return texts that are not blank, and \<^verbatim>\<open>parseModuleTitle\<close> returns
  them trimmed.\<close>

lemma trim_idem: "trim (trim s) = trim s"
proof -
  let ?u = "dropWhile is_space s"
  let ?w = "dropWhile is_space (rev ?u)"
  let ?t = "rev ?w"
  have w: "dropWhile is_space ?w = ?w" by (rule dropWhile_idem)
  have t: "dropWhile is_space ?t = ?t"
  proof (cases "?t = []")
    case True
    show ?thesis by (simp only: True dropWhile.simps)
  next
    case False
    have "?w = drop (length (takeWhile is_space (rev ?u))) (rev ?u)" by (rule dropWhile_eq_drop)
    then have "?t = take (length ?u - length (takeWhile is_space (rev ?u))) ?u"
      by (simp add: rev_drop)
    with False have h: "hd ?t = hd ?u" "?u \<noteq> []" by (auto simp: hd_take)
    from h(2) have "\<not> is_space (hd ?u)" by (rule hd_dropWhile)
    with h(1) False show ?thesis by (cases ?t) auto
  qed
  have "trim (trim s) = rev (dropWhile is_space (rev (dropWhile is_space ?t)))"
    by (simp add: trim_def)
  also have "\<dots> = rev (dropWhile is_space ?w)" by (simp only: t rev_rev_ident)
  also have "\<dots> = ?t" by (simp only: w)
  finally show ?thesis by (simp add: trim_def)
qed

lemma nonblank_string_Some: "nonblank_string v = Some x \<Longrightarrow> trim x \<noteq> []"
  by (auto simp: nonblank_string_def split: jsval.splits if_splits)

lemma parseSubmoduleTitle_clean_nonblank:
  assumes "parseSubmoduleTitle_clean s = Some xs"
  shows "xs \<noteq> [] \<and> list_all (\<lambda>x. trim x \<noteq> []) xs"
proof (cases "JSON_parse (replace_char (CHR 0x27) (CHR 0x22) (trim s))")
  case None
  with assms have xs: "xs = filter (\<lambda>m. length m > 0)
       (map (\<lambda>m. trim (remove_char (CHR 0x27) m)) (rx_match_all quoted_rx (trim s)))" "xs \<noteq> []"
    by (auto simp: parseSubmoduleTitle_clean_def Let_def split: if_splits)
  then show ?thesis by (auto simp: list_all_iff trim_idem)
next
  case (Some v)
  with assms obtain ys where "v = JArr ys" and xs: "xs = List.map_filter nonblank_string ys" "xs \<noteq> []"
    by (auto simp: parseSubmoduleTitle_clean_def Let_def split: if_splits jsval.splits)
  then show ?thesis
    by (auto simp: list_all_iff List.map_filter_def dest: nonblank_string_Some)
qed

lemma parseModuleTitle_trimmed:
  "list_all (\<lambda>x. x \<noteq> [] \<and> trim x = x) (parseModuleTitle s)"
  by (auto simp: parseModuleTitle_def list_all_iff trim_idem)

text \<open>
  Claim C6. The list parsers are to return trimmed texts. The branch of
  \<^verbatim>\<open>parseSubmoduleTitle\<close> that parses the array keeps the elements whose trimmed text is
  not empty, and returns them as they are: the element of \<^verbatim>\<open>[' X ']\<close> comes back with its
  blanks, where the fall-back branch of the same function and the other parsers trim.
\<close>

theorem parsed_array_elements_not_trimmed:
  "parseSubmoduleTitle_clean ''[' X ']'' = Some ['' X '']"
  by code_simp

section \<open>Properties of the imports\<close>

subsection \<open>Rows that are in the store already\<close>












section \<open>Properties of the replace-save\<close>

lemma create_Inr: "create st row = Inr st' \<Longrightarrow> st' = st @ [row]"
  by (auto simp: create_def split: if_splits)

lemma createEntries_Inr:
  "createEntries up pf k st (map (\<lambda>entry. entry\<lparr>courseId := c\<rparr>) entries) = Inr st' \<Longrightarrow>
     st' = st @ saved_rows pf c k entries \<and> (\<forall>j < length entries. up (k + j))"
proof (induction entries arbitrary: k st)
  case Nil
  then show ?case by (simp add: saved_rows_def)
next
  case (Cons e entries)
  from Cons.prems have u: "up k" by (auto split: if_splits)
  with Cons.prems obtain st1 where
    c: "createEntry pf k st (e\<lparr>courseId := c\<rparr>) = Inr st1"
    and r: "createEntries up pf (Suc k) st1 (map (\<lambda>entry. entry\<lparr>courseId := c\<rparr>) entries) = Inr st'"
    by (auto split: sum.splits)
  from c have st1: "st1 = st @ [e\<lparr>courseId := c, cs_id := uuid pf k\<rparr>]"
    by (auto simp: createEntry_def dest: create_Inr)
  from Cons.IH [OF r] have i: "st' = st1 @ saved_rows pf c (Suc k) entries"
    and a: "\<forall>j < length entries. up (Suc k + j)" by simp_all
  have "\<forall>j < length (e # entries). up (k + j)"
  proof (intro allI impI)
    fix j assume "j < length (e # entries)"
    with u a show "up (k + j)" by (cases j) auto
  qed
  with i st1 show ?case by (simp add: saved_rows_def)
qed

lemma saved_rows_course: "\<forall>row \<in> set (saved_rows pf c k entries). courseId row = c"
  by (auto simp: saved_rows_def)

lemma saveSchedule_cases:
  "(\<exists>e. saveSchedule up pf c entries st = (st, SaveFailed e)) \<or>
   (saveSchedule up pf c entries st = (deleteAllEntriesForCourse st c @ saved_rows pf c 1 entries, Saved) \<and>
    (\<forall>k \<le> length entries. up k))"
proof (cases "replaceEntries up pf c entries st")
  case (Inl e)
  then show ?thesis by (simp add: saveSchedule_def transaction_def)
next
  case (Inr st')
  then have u0: "up 0" and
    r: "createEntries up pf 1 (deleteAllEntriesForCourse st c)
          (map (\<lambda>entry. entry\<lparr>courseId := c\<rparr>) entries) = Inr st'"
    by (auto simp: replaceEntries_def split: if_splits)
  from createEntries_Inr [OF r] have s: "st' = deleteAllEntriesForCourse st c @ saved_rows pf c 1 entries"
    and a: "\<forall>j < length entries. up (1 + j)" by simp_all
  have "\<forall>k \<le> length entries. up k"
  proof (intro allI impI)
    fix k assume "k \<le> length entries"
    with u0 a show "up k" by (cases k) auto
  qed
  with Inr s show ?thesis by (simp add: saveSchedule_def transaction_def)
qed

lemma list_after_save:
  "listEntriesForCourse (deleteAllEntriesForCourse st c @ saved_rows pf c k entries) c
     = saved_rows pf c k entries"
  "deleteAllEntriesForCourse (deleteAllEntriesForCourse st c @ saved_rows pf c k entries) c
     = deleteAllEntriesForCourse st c"
  using saved_rows_course [of pf c k entries]
  by (auto simp: listEntriesForCourse_def deleteAllEntriesForCourse_def filter_empty_conv filter_id_conv)

text \<open>
  Claim C9. A whole-schedule replace-save is all or nothing. When the save does not end
  as saved, the store is the store from before, the entries of the course with it; when
  it ends as saved, the entries of the course are exactly the new set and the entries of
  the other courses are as before. A store that is unavailable at the delete or at any
  of the creates makes the save fail, as one failed save, with the store unchanged. In
  every case the entries of the course are either the prior ones or the full new set.
\<close>

theorem replace_save_all_or_nothing:
  "(snd (saveSchedule up pf c entries st) \<noteq> Saved \<longrightarrow> fst (saveSchedule up pf c entries st) = st) \<and>
   (snd (saveSchedule up pf c entries st) = Saved \<longrightarrow>
      listEntriesForCourse (fst (saveSchedule up pf c entries st)) c = saved_rows pf c 1 entries \<and>
      deleteAllEntriesForCourse (fst (saveSchedule up pf c entries st)) c
        = deleteAllEntriesForCourse st c) \<and>
   ((\<exists>k \<le> length entries. \<not> up k) \<longrightarrow>
      (\<exists>e. snd (saveSchedule up pf c entries st) = SaveFailed e) \<and>
      fst (saveSchedule up pf c entries st) = st) \<and>
   (listEntriesForCourse (fst (saveSchedule up pf c entries st)) c = listEntriesForCourse st c \<or>
    listEntriesForCourse (fst (saveSchedule up pf c entries st)) c = saved_rows pf c 1 entries)"
proof -
  note cs = saveSchedule_cases [of up pf c entries st]
  have 1: "snd (saveSchedule up pf c entries st) \<noteq> Saved \<longrightarrow> fst (saveSchedule up pf c entries st) = st"
    using cs by auto
  have 2: "snd (saveSchedule up pf c entries st) = Saved \<longrightarrow>
      listEntriesForCourse (fst (saveSchedule up pf c entries st)) c = saved_rows pf c 1 entries \<and>
      deleteAllEntriesForCourse (fst (saveSchedule up pf c entries st)) c
        = deleteAllEntriesForCourse st c"
    using cs list_after_save [of st c pf 1 entries] by auto
  have 3: "(\<exists>k \<le> length entries. \<not> up k) \<longrightarrow>
      (\<exists>e. snd (saveSchedule up pf c entries st) = SaveFailed e) \<and>
      fst (saveSchedule up pf c entries st) = st"
    using cs by auto
  have 4: "listEntriesForCourse (fst (saveSchedule up pf c entries st)) c = listEntriesForCourse st c \<or>
    listEntriesForCourse (fst (saveSchedule up pf c entries st)) c = saved_rows pf c 1 entries"
    using cs list_after_save(1) [of st c pf 1 entries] by auto
  show ?thesis
    apply (intro conjI)
       apply (rule 1)
      apply (rule 2)
     apply (rule 3)
    apply (rule 4)
    done
qed

theorem replace_save_all_or_nothing_witness:
  "(2 :: nat) \<le> length [example_stored ''x'', example_stored ''y''] \<and>
   \<not> available_except 2 2 \<and>
   (\<exists>e. snd (saveSchedule (available_except 2) example_platform ''c1''
              [example_stored ''x'', example_stored ''y''] [example_stored ''s1'']) = SaveFailed e) \<and>
   fst (saveSchedule (available_except 2) example_platform ''c1''
          [example_stored ''x'', example_stored ''y''] [example_stored ''s1''])
     = [example_stored ''s1''] \<and>
   snd (saveSchedule (\<lambda>k. True) example_platform ''c1''
          [example_stored ''x'', example_stored ''y''] [example_stored ''s1'']) = Saved \<and>
   listEntriesForCourse
     (fst (saveSchedule (\<lambda>k. True) example_platform ''c1''
             [example_stored ''x'', example_stored ''y''] [example_stored ''s1''])) ''c1''
     = saved_rows example_platform ''c1'' 1 [example_stored ''x'', example_stored ''y'']"
proof -
  have l: "(2 :: nat) \<le> length [example_stored ''x'', example_stored ''y'']" by simp
  have d: "\<not> available_except 2 2" by (simp add: available_except_def)
  from l d have h: "\<exists>k \<le> length [example_stored ''x'', example_stored ''y'']. \<not> available_except 2 k"
    by blast
  note failed = replace_save_all_or_nothing [of "available_except 2" example_platform "''c1''"
      "[example_stored ''x'', example_stored ''y'']" "[example_stored ''s1'']",
      THEN conjunct2, THEN conjunct2, THEN conjunct1, rule_format, OF h]
  have s: "snd (saveSchedule (\<lambda>k. True) example_platform ''c1''
          [example_stored ''x'', example_stored ''y''] [example_stored ''s1'']) = Saved"
    by code_simp
  note saved = replace_save_all_or_nothing [of "\<lambda>k. True" example_platform "''c1''"
      "[example_stored ''x'', example_stored ''y'']" "[example_stored ''s1'']",
      THEN conjunct2, THEN conjunct1, rule_format, OF s]
  show ?thesis
    apply (intro conjI)
         apply (rule l)
        apply (rule d)
       apply (rule failed [THEN conjunct1])
      apply (rule failed [THEN conjunct2])
     apply (rule s)
    apply (rule saved [THEN conjunct1])
    done
qed

section \<open>Properties of the durations\<close>

lemma digit_cases:
  "is_digit c \<Longrightarrow> c = CHR ''0'' \<or> c = CHR ''1'' \<or> c = CHR ''2'' \<or> c = CHR ''3'' \<or> c = CHR ''4'' \<or>
     c = CHR ''5'' \<or> c = CHR ''6'' \<or> c = CHR ''7'' \<or> c = CHR ''8'' \<or> c = CHR ''9''"
  by (auto simp: is_digit_def digit_chars_def)

lemma digit_not_space [simp]: "is_digit c \<Longrightarrow> \<not> is_space c"
  by (auto simp: is_space_def white_space_def dest!: digit_cases)

lemma trim_digits_colon:
  assumes "is_digit a" "is_digit d"
  shows "trim (a # xs @ [d]) = a # xs @ [d]"
  using assms by (simp add: trim_def)

lemma Number_two_digits:
  "is_digit a \<Longrightarrow> is_digit b \<Longrightarrow> Number [a, b] = Num (int (10 * digit_val a + digit_val b))"
  by (simp add: Number_def trim_def nat_of_digits_def)

lemma total_minutes_canonical:
  assumes "is_digit a" "is_digit b" "is_digit c" "is_digit d"
  shows "total_minutes [a, b, CHR '':'', c, d] = Num (clock_minutes a b c d)"
proof -
  have n: "a \<noteq> CHR '':''" "b \<noteq> CHR '':''" "c \<noteq> CHR '':''" "d \<noteq> CHR '':''"
    using assms by (auto dest!: digit_cases)
  then have "split CHR '':'' [a, b, CHR '':'', c, d] = [[a, b], [c, d]]" by (simp add: Let_def)
  then show ?thesis using assms
    by (simp add: total_minutes_def num_at_def Number_two_digits clock_minutes_def)
qed

lemma clean_canonical:
  assumes "is_digit a" "is_digit b" "is_digit c" "is_digit d"
    "is_digit e" "is_digit f" "is_digit g" "is_digit h"
  shows "calculateDurationMinutes_clean [a, b, CHR '':'', c, d] [e, f, CHR '':'', g, h]
         = Num (claimed_duration (clock_minutes a b c d) (clock_minutes e f g h))"
  using assms by (simp add: calculateDurationMinutes_clean_def total_minutes_canonical claimed_duration_def Let_def)


lemma digit_in [simp]: "is_digit c \<Longrightarrow> c \<in> set digit_chars"
  by (simp add: is_digit_def)

lemma digit_not_in [simp]:
  assumes "is_digit c"
  shows "c \<noteq> CHR ''a''" "c \<noteq> CHR ''A''" "c \<noteq> CHR ''p''" "c \<noteq> CHR ''P''"
    "c \<noteq> CHR ''m''" "c \<noteq> CHR ''M''" "c \<noteq> CHR '':''" "c \<noteq> CHR ''.''"
    "c \<notin> set white_space" "CHR '':'' \<noteq> c" "CHR ''.'' \<noteq> c"
  using digit_cases [OF assms] by (auto simp: white_space_def)

lemma colon_facts [simp]:
  "CHR '':'' \<notin> set digit_chars" "CHR '':'' \<notin> set white_space"
  by (simp_all add: digit_chars_def white_space_def)

lemma time_rx_no_match:
  assumes "is_digit a" "is_digit b" "is_digit c" "is_digit d"
  shows "rx_match time_rx [a, b, CHR '':'', c, d] = None"
  using assms
  by (simp add: time_rx_def digit_def space_def Opt_def rx_match_here_def)

lemma simple_rx_match:
  assumes "is_digit a" "is_digit b" "is_digit c" "is_digit d"
  shows "rx_match simple_rx [a, b, CHR '':'', c, d]
         = Some ([a, b, CHR '':'', c, d], [(2, [c, d]), (1, [a, b])])"
  using assms
  by (simp add: simple_rx_def digit_def Opt_def rx_match_here_def)


lemma digit_val_facts:
  assumes "is_digit c"
  shows "digit_val c < 10" "digit_chars ! digit_val c = c"
  using digit_cases [OF assms] by (auto simp: digit_val_def digit_chars_def)

lemma digit_val_zero: "is_digit c \<Longrightarrow> digit_val c = 0 \<Longrightarrow> c = CHR ''0''"
  using digit_val_facts(2) [of c] by (simp add: digit_chars_def)

lemma pad_two_digits:
  assumes "is_digit a" "is_digit b"
  shows "padStart2 (string_of_nat (10 * digit_val a + digit_val b)) = [a, b]"
proof (cases "digit_val a = 0")
  case True
  with assms digit_val_facts [OF assms(2)] digit_val_zero [OF assms(1)] show ?thesis
    by (simp add: string_of_nat.simps [of "digit_val b"] padStart2_def)
next
  case False
  let ?n = "10 * digit_val a + digit_val b"
  from False have ge: "\<not> ?n < 10" by simp
  from digit_val_facts [OF assms(2)] have dm: "?n div 10 = digit_val a" "?n mod 10 = digit_val b"
    by simp_all
  from digit_val_facts [OF assms(1)] have "string_of_nat (digit_val a) = [a]"
    by (simp add: string_of_nat.simps [of "digit_val a"])
  with ge dm digit_val_facts [OF assms(2)] show ?thesis
    by (simp add: string_of_nat.simps [of ?n] padStart2_def)
qed

lemma digit_not_sign [simp]:
  "is_digit c \<Longrightarrow> c \<noteq> CHR ''-''" "is_digit c \<Longrightarrow> c \<noteq> CHR ''+''"
  by (auto dest!: digit_cases)

lemma parseInt_two_digits:
  "is_digit a \<Longrightarrow> is_digit b \<Longrightarrow> parseInt [a, b] = Num (int (10 * digit_val a + digit_val b))"
  by (simp add: parseInt_def nat_of_digits_def Let_def)

lemma normalizeTime_canonical:
  assumes "is_digit a" "is_digit b" "is_digit c" "is_digit d"
  shows "normalizeTime [a, b, CHR '':'', c, d] = Inr [a, b, CHR '':'', c, d]"
proof -
  let ?s = "[a, b, CHR '':'', c, d]"
  have t: "trim ?s = ?s" using assms by (simp add: trim_def)
  have "length (toUpperCase ?s) \<noteq> length ''NULL''" by (simp add: toUpperCase_def)
  then have u: "toUpperCase ?s \<noteq> ''NULL''" by fastforce
  have r: "replace_char CHR ''.'' CHR '':'' ?s = ?s" using assms by (simp add: replace_char_def)
  have "string_of_int (int (10 * digit_val a + digit_val b)) = string_of_nat (10 * digit_val a + digit_val b)"
    unfolding string_of_int_def by (simp del: of_nat_add of_nat_mult)
  then have h: "padStart2 (String (parseInt [a, b])) = [a, b]"
    by (simp only: parseInt_two_digits [OF assms(1,2)] String.simps pad_two_digits [OF assms(1,2)])
  have m: "padStart2 (or_00 (Some [c, d])) = [c, d]" by (simp add: or_00_def padStart2_def)
  show ?thesis
    using t u r h m time_rx_no_match [OF assms] simple_rx_match [OF assms]
    by (simp add: normalizeTime_def parseInt_group_def group_def)
qed

text \<open>
  Claim C4, as amended. For two times written as two digits, a colon and two digits, both
  scripts turn the times into minutes since midnight and take end minus start, with 1440
  added when the end is earlier. The clean-and-import script returns that number. The
  production import returns it when it is positive and the fall-back 120 otherwise, so
  that two equal times give 120 and not 0.
\<close>

theorem duration_of_canonical_times:
  assumes "is_digit a" "is_digit b" "is_digit c" "is_digit d"
    and "is_digit e" "is_digit f" "is_digit g" "is_digit h"
  shows "calculateDurationMinutes [a, b, CHR '':'', c, d] [e, f, CHR '':'', g, h]
         = Num (if 0 < claimed_duration (clock_minutes a b c d) (clock_minutes e f g h)
                then claimed_duration (clock_minutes a b c d) (clock_minutes e f g h) else 120) \<and>
         calculateDurationMinutes_clean [a, b, CHR '':'', c, d] [e, f, CHR '':'', g, h]
         = Num (claimed_duration (clock_minutes a b c d) (clock_minutes e f g h))"
proof -
  have 1: "calculateDurationMinutes [a, b, CHR '':'', c, d] [e, f, CHR '':'', g, h]
         = Num (if 0 < claimed_duration (clock_minutes a b c d) (clock_minutes e f g h)
                then claimed_duration (clock_minutes a b c d) (clock_minutes e f g h) else 120)"
    using normalizeTime_canonical [OF assms(1-4)] normalizeTime_canonical [OF assms(5-8)]
      total_minutes_canonical [OF assms(1-4)] total_minutes_canonical [OF assms(5-8)]
    by (simp add: calculateDurationMinutes_def claimed_duration_def Let_def)
  from 1 clean_canonical [OF assms] show ?thesis by (intro conjI)
qed

lemma ex_digits: "is_digit CHR ''0''" "is_digit CHR ''1''" "is_digit CHR ''2''" "is_digit CHR ''3''"
  "is_digit CHR ''9''"
  by (simp_all add: is_digit_def digit_chars_def)

theorem duration_of_canonical_times_witness:
  "is_digit CHR ''2'' \<and> is_digit CHR ''3'' \<and> is_digit CHR ''0'' \<and> is_digit CHR ''1'' \<and>
   calculateDurationMinutes ''23:00'' ''01:00'' = Num 120 \<and>
   calculateDurationMinutes_clean ''23:00'' ''01:00'' = Num 120"
proof -
  have v: "claimed_duration (clock_minutes CHR ''2'' CHR ''3'' CHR ''0'' CHR ''0'')
             (clock_minutes CHR ''0'' CHR ''1'' CHR ''0'' CHR ''0'') = 120"
    by (simp add: claimed_duration_def clock_minutes_def digit_val_def)
  from duration_of_canonical_times [OF ex_digits(3) ex_digits(4) ex_digits(1) ex_digits(1)
      ex_digits(1) ex_digits(2) ex_digits(1) ex_digits(1)] ex_digits
  show ?thesis unfolding v by simp
qed

theorem duration_claim_counterexample:
  "calculateDurationMinutes ''09:00'' ''09:00''
     \<noteq> Num (claimed_duration (clock_minutes CHR ''0'' CHR ''9'' CHR ''0'' CHR ''0'')
                               (clock_minutes CHR ''0'' CHR ''9'' CHR ''0'' CHR ''0'')) \<and>
   calculateDurationMinutes ''09:00'' ''09:00'' = Num 120 \<and>
   calculateDurationMinutes_clean ''abc'' ''15:00'' \<noteq> Num 120 \<and>
   calculateDurationMinutes_clean ''abc'' ''15:00'' = NaN"
  by code_simp

end
